theory Spec2Isabelle
  imports Complex_Main "HOL-Library.Sublist"
begin

text \<open>
  A shallow embedding of the toplang compiler front end: the lexer, the recursive-descent
  parser and the code generator's traversal, each function of the C++ sources as a
  function of the same name here, followed by the properties proved of them.
\<close>

section \<open>Tokens (token.h)\<close>

datatype TokenType =
    FUNCTION | RETURN | IF | ELSE | WHILE | FOR | VARIABLE | CONSTANT | PRINT
  | PLUS | MINUS | MULTIPLY | DIVIDE | ASSIGN | EQUALS | NOT_EQUALS | GREATER | LESS
  | LEFT_BRACE | RIGHT_BRACE | LEFT_PAREN | RIGHT_PAREN | COMMA
  | IDENTIFIER | NUMBER | STRING | COMMENT | EOL | END_OF_FILE | UNKNOWN

text \<open>
  \<^verbatim>\<open>struct Token { TokenType type; std::string value; int line; int column; }\<close>.
  The constructor takes the fields in this order. The two \<^verbatim>\<open>int\<close> fields are
  modelled as unbounded naturals: they start at 1 and are only ever incremented, and the
  model covers sources shorter than \<open>2^31\<close> bytes, on which they cannot overflow.
\<close>

datatype Token = Token (ttype: TokenType) (tvalue: string) (tline: nat) (tcolumn: nat)

section \<open>Lexer (lexer.h, lexer.cpp)\<close>

record Lexer =
  source :: string
  position :: nat
  line :: nat
  column :: nat
  currentChar :: char

text \<open>The characters the lexer names: \<^verbatim>\<open>'\0'\<close>, \<^verbatim>\<open>'\n'\<close>, \<^verbatim>\<open>'"'\<close>.\<close>

abbreviation NUL :: char where "NUL \<equiv> CHR 0x00"
abbreviation NL :: char where "NL \<equiv> CHR 0x0A"
abbreviation DQUOTE :: char where "DQUOTE \<equiv> CHR 0x22"

text \<open>
  The \<^verbatim>\<open><cctype>\<close> predicates in the "C" locale, on the byte value of the character.
  Bytes from 128 on belong to no class.
\<close>

definition isspace :: "char \<Rightarrow> bool" where
  "isspace c = (let n = (of_char c :: nat) in n = 32 \<or> (9 \<le> n \<and> n \<le> 13))"

definition isdigit :: "char \<Rightarrow> bool" where
  "isdigit c = (let n = (of_char c :: nat) in 48 \<le> n \<and> n \<le> 57)"

definition isalpha :: "char \<Rightarrow> bool" where
  "isalpha c = (let n = (of_char c :: nat) in (65 \<le> n \<and> n \<le> 90) \<or> (97 \<le> n \<and> n \<le> 122))"

definition isalnum :: "char \<Rightarrow> bool" where
  "isalnum c = (isalpha c \<or> isdigit c)"

text \<open>The \<^verbatim>\<open>keywords\<close> map filled by the constructor.\<close>

definition keywordTable :: "string \<Rightarrow> TokenType option" where
  "keywordTable w =
    (if w = ''function'' then Some FUNCTION
     else if w = ''return'' then Some RETURN
     else if w = ''if'' then Some IF
     else if w = ''else'' then Some ELSE
     else if w = ''while'' then Some WHILE
     else if w = ''for'' then Some FOR
     else if w = ''var'' then Some VARIABLE
     else if w = ''const'' then Some CONSTANT
     else if w = ''print'' then Some PRINT
     else if w = ''plus'' then Some PLUS
     else if w = ''minus'' then Some MINUS
     else if w = ''times'' then Some MULTIPLY
     else if w = ''divided'' then Some DIVIDE
     else if w = ''is'' then Some ASSIGN
     else if w = ''equals'' then Some EQUALS
     else if w = ''not'' then Some NOT_EQUALS
     else if w = ''greater'' then Some GREATER
     else if w = ''less'' then Some LESS
     else None)"

text \<open>\<^verbatim>\<open>Lexer::Lexer(const std::string& src)\<close>\<close>

definition new_Lexer :: "string \<Rightarrow> Lexer" where
  "new_Lexer src =
    \<lparr>source = src, position = 0, line = 1, column = 1,
     currentChar = (if src \<noteq> [] then src ! 0 else NUL)\<rparr>"

text \<open>\<^verbatim>\<open>void Lexer::advance()\<close>\<close>

definition advance :: "Lexer \<Rightarrow> Lexer" where
  "advance lx =
    (let p = position lx + 1 in
     if p < length (source lx) then
       (let c = source lx ! p in
        if c = NL
        then lx\<lparr>position := p, currentChar := c, line := line lx + 1, column := 1\<rparr>
        else lx\<lparr>position := p, currentChar := c, column := column lx + 1\<rparr>)
     else lx\<lparr>position := p, currentChar := NUL\<rparr>)"

text \<open>
  Every scanning loop of the lexer has the shape
  \<^verbatim>\<open>while (currentChar != '\0' && P(currentChar)) { result += currentChar; advance(); }\<close>
  (\<^verbatim>\<open>skipWhitespace\<close> and \<^verbatim>\<open>skipComment\<close> keep no result). \<open>scan P result lx\<close> is
  that loop; it returns the accumulated string and the lexer after the loop.
  The measure counts the characters still ahead, and one more while the current
  character is not the terminator.
\<close>

definition remaining :: "Lexer \<Rightarrow> nat" where
  "remaining lx =
    2 * (length (source lx) - position lx) + (if currentChar lx \<noteq> NUL then 1 else 0)"

lemma remaining_advance: "currentChar lx \<noteq> NUL \<Longrightarrow> remaining (advance lx) < remaining lx"
  by (auto simp: remaining_def advance_def Let_def)

function scan :: "(char \<Rightarrow> bool) \<Rightarrow> string \<Rightarrow> Lexer \<Rightarrow> string \<times> Lexer" where
  "scan P result lx =
    (if currentChar lx \<noteq> NUL \<and> P (currentChar lx)
     then scan P (result @ [currentChar lx]) (advance lx)
     else (result, lx))"
  by pat_completeness auto
termination
  by (relation "measure (\<lambda>(P, result, lx). remaining lx)") (auto simp: remaining_advance)

declare scan.simps [simp del]

text \<open>\<^verbatim>\<open>void Lexer::skipWhitespace()\<close>\<close>

definition skipWhitespace :: "Lexer \<Rightarrow> Lexer" where
  "skipWhitespace lx = snd (scan isspace [] lx)"

text \<open>\<^verbatim>\<open>Token Lexer::identifier()\<close>: the token and the lexer after it.\<close>

definition identifier_tok :: "Lexer \<Rightarrow> Token \<times> Lexer" where
  "identifier_tok lx =
    (let startColumn = column lx;
         (result, lx1) = scan (\<lambda>c. isalnum c \<or> c = CHR ''_'') [] lx
     in case keywordTable result of
          Some k \<Rightarrow> (Token k result (line lx1) startColumn, lx1)
        | None \<Rightarrow> (Token IDENTIFIER result (line lx1) startColumn, lx1))"

text \<open>\<^verbatim>\<open>Token Lexer::number()\<close>\<close>

definition number_tok :: "Lexer \<Rightarrow> Token \<times> Lexer" where
  "number_tok lx =
    (let startColumn = column lx;
         (result, lx1) = scan isdigit [] lx;
         (result, lx2) =
           (if currentChar lx1 = CHR ''.''
            then scan isdigit (result @ [currentChar lx1]) (advance lx1)
            else (result, lx1))
     in (Token NUMBER result (line lx2) startColumn, lx2))"

text \<open>\<^verbatim>\<open>Token Lexer::string()\<close>\<close>

definition string_tok :: "Lexer \<Rightarrow> Token \<times> Lexer" where
  "string_tok lx =
    (let startColumn = column lx;
         lx1 = advance lx;
         (result, lx2) = scan (\<lambda>c. c \<noteq> DQUOTE) [] lx1;
         lx3 = (if currentChar lx2 = DQUOTE then advance lx2 else lx2)
     in (Token STRING result (line lx3) startColumn, lx3))"

text \<open>\<^verbatim>\<open>void Lexer::skipComment()\<close>\<close>

definition skipComment :: "Lexer \<Rightarrow> Lexer" where
  "skipComment lx = snd (scan (\<lambda>c. c \<noteq> NL) [] lx)"

lemma remaining_scan: "remaining (snd (scan P result lx)) \<le> remaining lx"
proof (induction P result lx rule: scan.induct)
  case (1 P result lx)
  show ?case
  proof (cases "currentChar lx \<noteq> NUL \<and> P (currentChar lx)")
    case True
    with 1 have "remaining (snd (scan P result lx)) \<le> remaining (advance lx)"
      by (subst scan.simps) simp
    with True show ?thesis
      using remaining_advance [of lx] by simp
  next
    case False
    then show ?thesis by (subst scan.simps) auto
  qed
qed

lemma remaining_scan_step:
  assumes "currentChar lx \<noteq> NUL" and "P (currentChar lx)"
  shows "remaining (snd (scan P result lx)) < remaining lx"
proof -
  have "scan P result lx = scan P (result @ [currentChar lx]) (advance lx)"
    using assms by (subst scan.simps) simp
  then have "remaining (snd (scan P result lx)) \<le> remaining (advance lx)"
    by (simp add: remaining_scan)
  with remaining_advance [OF assms(1)] show ?thesis by simp
qed

lemma remaining_skipWhitespace:
  "currentChar lx \<noteq> NUL \<Longrightarrow> isspace (currentChar lx) \<Longrightarrow>
   remaining (skipWhitespace lx) < remaining lx"
  by (simp add: skipWhitespace_def remaining_scan_step)

lemma remaining_identifier_tok:
  "currentChar lx \<noteq> NUL \<Longrightarrow> isalpha (currentChar lx) \<or> currentChar lx = CHR ''_'' \<Longrightarrow>
   remaining (snd (identifier_tok lx)) < remaining lx"
  using remaining_scan_step [of lx "\<lambda>c. isalnum c \<or> c = CHR ''_''" "[]"]
  by (auto simp: identifier_tok_def isalnum_def Let_def split: prod.splits option.splits)

lemma remaining_number_tok:
  "currentChar lx \<noteq> NUL \<Longrightarrow> isdigit (currentChar lx) \<Longrightarrow>
   remaining (snd (number_tok lx)) < remaining lx"
proof -
  assume a: "currentChar lx \<noteq> NUL" "isdigit (currentChar lx)"
  obtain r1 lx1 where s1: "scan isdigit [] lx = (r1, lx1)" by (cases "scan isdigit [] lx")
  have l1: "remaining lx1 < remaining lx"
    using remaining_scan_step [of lx isdigit "[]"] a s1 by simp
  show ?thesis
  proof (cases "currentChar lx1 = CHR ''.''")
    case True
    obtain r2 lx2 where s2: "scan isdigit (r1 @ [currentChar lx1]) (advance lx1) = (r2, lx2)"
      by (cases "scan isdigit (r1 @ [currentChar lx1]) (advance lx1)")
    have "remaining lx2 \<le> remaining (advance lx1)"
      using remaining_scan [of isdigit "r1 @ [currentChar lx1]" "advance lx1"] s2 by simp
    moreover have "remaining (advance lx1) < remaining lx1"
      using True by (intro remaining_advance) simp
    ultimately show ?thesis using l1 s1 s2 True by (simp add: number_tok_def)
  next
    case False
    then show ?thesis using l1 s1 by (simp add: number_tok_def)
  qed
qed

lemma remaining_string_tok:
  "currentChar lx \<noteq> NUL \<Longrightarrow> remaining (snd (string_tok lx)) < remaining lx"
proof -
  assume a: "currentChar lx \<noteq> NUL"
  obtain r lx2 where s: "scan (\<lambda>c. c \<noteq> DQUOTE) [] (advance lx) = (r, lx2)"
    by (cases "scan (\<lambda>c. c \<noteq> DQUOTE) [] (advance lx)")
  have l2: "remaining lx2 \<le> remaining (advance lx)"
    using remaining_scan [of "\<lambda>c. c \<noteq> DQUOTE" "[]" "advance lx"] s by simp
  have "remaining (if currentChar lx2 = DQUOTE then advance lx2 else lx2) \<le> remaining lx2"
    using remaining_advance [of lx2] by auto
  with l2 remaining_advance [OF a] show ?thesis
    using s by (simp add: string_tok_def Let_def)
qed

lemma remaining_skipComment:
  "currentChar lx \<noteq> NUL \<Longrightarrow> currentChar lx \<noteq> NL \<Longrightarrow>
   remaining (skipComment lx) < remaining lx"
  by (simp add: skipComment_def remaining_scan_step)

text \<open>
  \<^verbatim>\<open>TokenList Lexer::tokenize()\<close>: \<open>tokenize_loop\<close> is the \<^verbatim>\<open>while (currentChar != '\0')\<close>
  loop together with the final \<^verbatim>\<open>push_back\<close> of the end-of-file token; the tests are
  made in the order of the source, so the white-space test comes before the
  \<^verbatim>\<open>switch\<close>.
\<close>

function tokenize_loop :: "Token list \<Rightarrow> Lexer \<Rightarrow> Token list" where
  "tokenize_loop tokens lx =
    (if currentChar lx \<noteq> NUL then
       if isspace (currentChar lx) then tokenize_loop tokens (skipWhitespace lx)
       else if isalpha (currentChar lx) \<or> currentChar lx = CHR ''_''
         then tokenize_loop (tokens @ [fst (identifier_tok lx)]) (snd (identifier_tok lx))
       else if isdigit (currentChar lx)
         then tokenize_loop (tokens @ [fst (number_tok lx)]) (snd (number_tok lx))
       else if currentChar lx = CHR ''{''
         then tokenize_loop (tokens @ [Token LEFT_BRACE ''{'' (line lx) (column lx)]) (advance lx)
       else if currentChar lx = CHR ''}''
         then tokenize_loop (tokens @ [Token RIGHT_BRACE ''}'' (line lx) (column lx)]) (advance lx)
       else if currentChar lx = CHR ''(''
         then tokenize_loop (tokens @ [Token LEFT_PAREN ''('' (line lx) (column lx)]) (advance lx)
       else if currentChar lx = CHR '')''
         then tokenize_loop (tokens @ [Token RIGHT_PAREN '')'' (line lx) (column lx)]) (advance lx)
       else if currentChar lx = CHR '',''
         then tokenize_loop (tokens @ [Token COMMA '','' (line lx) (column lx)]) (advance lx)
       else if currentChar lx = DQUOTE
         then tokenize_loop (tokens @ [fst (string_tok lx)]) (snd (string_tok lx))
       else if currentChar lx = CHR ''#''
         then tokenize_loop tokens (skipComment lx)
       else if currentChar lx = NL
         then tokenize_loop (tokens @ [Token EOL [NL] (line lx) (column lx)]) (advance lx)
       else tokenize_loop (tokens @ [Token UNKNOWN [currentChar lx] (line lx) (column lx)])
              (advance lx)
     else tokens @ [Token END_OF_FILE [] (line lx) (column lx)])"
  by pat_completeness auto
termination
  by (relation "measure (\<lambda>(tokens, lx). remaining lx)")
     (auto simp: remaining_advance remaining_skipWhitespace remaining_identifier_tok
        remaining_number_tok remaining_string_tok remaining_skipComment)

declare tokenize_loop.simps [simp del]

definition tokenize :: "Lexer \<Rightarrow> Token list" where
  "tokenize lx = tokenize_loop [] lx"

text \<open>The tokens of a source text: \<^verbatim>\<open>Lexer lexer(source); lexer.tokenize()\<close>.\<close>

definition lex :: "string \<Rightarrow> Token list" where
  "lex src = tokenize (new_Lexer src)"

text \<open>
  One turn of the \<^verbatim>\<open>while\<close> loop of \<^verbatim>\<open>tokenize\<close>, as the tokens it pushes and the
  lexer it leaves: a proof device, shown below to agree with \<open>tokenize_loop\<close>.
\<close>

definition lex_step :: "Lexer \<Rightarrow> Token list \<times> Lexer" where
  "lex_step lx =
    (if isspace (currentChar lx) then ([], skipWhitespace lx)
     else if isalpha (currentChar lx) \<or> currentChar lx = CHR ''_''
       then ([fst (identifier_tok lx)], snd (identifier_tok lx))
     else if isdigit (currentChar lx) then ([fst (number_tok lx)], snd (number_tok lx))
     else if currentChar lx = CHR ''{''
       then ([Token LEFT_BRACE ''{'' (line lx) (column lx)], advance lx)
     else if currentChar lx = CHR ''}''
       then ([Token RIGHT_BRACE ''}'' (line lx) (column lx)], advance lx)
     else if currentChar lx = CHR ''(''
       then ([Token LEFT_PAREN ''('' (line lx) (column lx)], advance lx)
     else if currentChar lx = CHR '')''
       then ([Token RIGHT_PAREN '')'' (line lx) (column lx)], advance lx)
     else if currentChar lx = CHR '',''
       then ([Token COMMA '','' (line lx) (column lx)], advance lx)
     else if currentChar lx = DQUOTE then ([fst (string_tok lx)], snd (string_tok lx))
     else if currentChar lx = CHR ''#'' then ([], skipComment lx)
     else ([Token UNKNOWN [currentChar lx] (line lx) (column lx)], advance lx))"

text \<open>
  The constructor and \<^verbatim>\<open>advance\<close> keep \<^verbatim>\<open>currentChar\<close> equal to the character under
  the cursor, or to the terminator once the cursor has left the source.
\<close>

definition cursor_ok :: "Lexer \<Rightarrow> bool" where
  "cursor_ok lx =
    (currentChar lx =
      (if position lx < length (source lx) then source lx ! position lx else NUL))"

text \<open>The order on token positions: by line, then by column.\<close>

fun pos_le :: "Token \<Rightarrow> Token \<Rightarrow> bool" where
  "pos_le a b = (tline a < tline b \<or> (tline a = tline b \<and> tcolumn a \<le> tcolumn b))"

fun positions_nondecreasing :: "Token list \<Rightarrow> bool" where
  "positions_nondecreasing (a # b # ts) = (pos_le a b \<and> positions_nondecreasing (b # ts))"
| "positions_nondecreasing ts = True"

section \<open>Abstract syntax (ast.h)\<close>

text \<open>\<^verbatim>\<open>BinaryOpNode::Op\<close>\<close>

datatype Op = Add | Subtract | Multiply | Divide | Assign | Equals | NotEquals | Greater | Less

text \<open>
  The node classes, one constructor each, with the fields in the order of the C++
  constructors. A child held in a \<^verbatim>\<open>std::unique_ptr\<close> is a subtree; the parser builds
  every child pointer non-null except \<^verbatim>\<open>IfNode::elseBlock\<close>, which is the only optional
  child here. The fields typed \<^verbatim>\<open>std::unique_ptr<BlockNode>\<close> hold a node that the
  parser has checked to be a \<open>BlockNode\<close> (the \<^verbatim>\<open>dynamic_cast\<close>).
  \<^verbatim>\<open>NumberNode::value\<close> is a \<^verbatim>\<open>double\<close>; it is modelled by the real number it stands
  for, and no claim below depends on its rounding.
\<close>

datatype ASTNode =
    ProgramNode "ASTNode list"
  | BlockNode "ASTNode list"
  | VariableDeclarationNode string bool ASTNode
  | BinaryOpNode Op ASTNode ASTNode
  | NumberNode real
  | StringNode string
  | IdentifierNode string
  | FunctionNode string "string list" ASTNode
  | CallNode string "ASTNode list"
  | IfNode ASTNode ASTNode "ASTNode option"
  | WhileNode ASTNode ASTNode
  | PrintNode ASTNode
  | ReturnNode ASTNode

text \<open>\<^verbatim>\<open>dynamic_cast<BlockNode*>(p) != nullptr\<close>\<close>

fun isBlockNode :: "ASTNode \<Rightarrow> bool" where
  "isBlockNode (BlockNode stmts) = True"
| "isBlockNode _ = False"

section \<open>Parser (parser.h, parser.cpp)\<close>

text \<open>
  \<^verbatim>\<open>std::stod\<close> on the lexeme of a \<open>NUMBER\<close> token: digits, then optionally a dot and
  digits. It reads the longest such prefix and throws \<^verbatim>\<open>std::invalid_argument\<close> (here
  \<open>None\<close>) when the text does not start with a digit. Signs, exponents and the other
  forms \<^verbatim>\<open>std::stod\<close> accepts never occur in a lexeme the lexer produces and are not
  modelled; nor is \<^verbatim>\<open>std::out_of_range\<close> on lexemes of several hundred digits.
\<close>

definition digitsToNat :: "string \<Rightarrow> nat" where
  "digitsToNat ds = foldl (\<lambda>n c. 10 * n + (of_char c - 48)) 0 ds"

definition stod :: "string \<Rightarrow> real option" where
  "stod s =
    (let ip = takeWhile isdigit s; r = dropWhile isdigit s in
     if ip = [] then None
     else Some (real (digitsToNat ip) +
       (case r of
          [] \<Rightarrow> 0
        | c # fr \<Rightarrow>
            if c = CHR ''.''
            then real (digitsToNat (takeWhile isdigit fr)) / 10 ^ length (takeWhile isdigit fr)
            else 0)))"

text \<open>
  A parsing function either returns a value or throws a \<^verbatim>\<open>std::runtime_error\<close>; both
  leave the parser's \<^verbatim>\<open>position\<close> behind, which is the only mutable field (\<^verbatim>\<open>tokens\<close> is
  never written). \<open>Ok v p\<close> is a return of \<open>v\<close> with the cursor at \<open>p\<close>, \<open>Throw what p\<close> an
  exception with message \<open>what\<close> thrown with the cursor at \<open>p\<close>.

  The parsing functions call each other recursively, so they take a bound on the depth
  of the calls (fuel), one less at every call and at every turn of a loop; \<open>None\<close> means
  that the bound was reached. Results do not depend on the bound once it is large enough
  (\<open>parse_fuel_mono\<close> below).
\<close>

datatype 'a result = Throw string nat | Ok 'a nat

definition bind :: "'a result option \<Rightarrow> ('a \<Rightarrow> nat \<Rightarrow> 'b result option) \<Rightarrow> 'b result option" where
  "bind m k = (case m of None \<Rightarrow> None | Some (Throw e p) \<Rightarrow> Some (Throw e p) | Some (Ok v p) \<Rightarrow> k v p)"

definition throw :: "string \<Rightarrow> nat \<Rightarrow> 'a result option" where
  "throw what p = Some (Throw what p)"

definition return :: "'a \<Rightarrow> nat \<Rightarrow> 'a result option" where
  "return v p = Some (Ok v p)"

text \<open>\<^verbatim>\<open>Token Parser::currentToken()\<close>, and its \<^verbatim>\<open>type\<close> field.\<close>

definition currentToken :: "Token list \<Rightarrow> nat \<Rightarrow> Token" where
  "currentToken tokens pos =
    (if pos \<ge> length tokens then Token END_OF_FILE [] 0 0 else tokens ! pos)"

abbreviation cur :: "Token list \<Rightarrow> nat \<Rightarrow> TokenType" where
  "cur tokens pos \<equiv> ttype (currentToken tokens pos)"

lemma cur_in_range: "cur tokens pos \<noteq> END_OF_FILE \<Longrightarrow> pos < length tokens"
  by (auto simp: currentToken_def split: if_splits)

text \<open>The loop \<^verbatim>\<open>while (currentToken().type == TokenType::EOL) advance();\<close> of
  \<^verbatim>\<open>parseStatement\<close>.\<close>

function skipEOL :: "Token list \<Rightarrow> nat \<Rightarrow> nat" where
  "skipEOL tokens pos = (if cur tokens pos = EOL then skipEOL tokens (pos + 1) else pos)"
  by pat_completeness auto
termination
  by (relation "measure (\<lambda>(tokens, pos). length tokens - pos)") (auto dest!: cur_in_range [rotated] simp: currentToken_def split: if_splits)

text \<open>The recovery loop of \<^verbatim>\<open>parseProgram\<close>: skip to the next \<open>EOL\<close> or to the end.\<close>

function skipToEOL :: "Token list \<Rightarrow> nat \<Rightarrow> nat" where
  "skipToEOL tokens pos =
    (if cur tokens pos \<noteq> EOL \<and> cur tokens pos \<noteq> END_OF_FILE
     then skipToEOL tokens (pos + 1) else pos)"
  by pat_completeness auto
termination
  by (relation "measure (\<lambda>(tokens, pos). length tokens - pos)")
     (auto simp: currentToken_def split: if_splits)

text \<open>The parameter list of \<^verbatim>\<open>parseFunction\<close>: the first name, then the
  \<^verbatim>\<open>while (currentToken().type == TokenType::COMMA)\<close> loop.\<close>

function parseParameters_loop :: "Token list \<Rightarrow> string list \<Rightarrow> nat \<Rightarrow> string list result" where
  "parseParameters_loop tokens parameters pos =
    (if cur tokens pos = COMMA then
       if cur tokens (pos + 1) \<noteq> IDENTIFIER
       then Throw ''Expected parameter name after comma'' (pos + 1)
       else parseParameters_loop tokens
              (parameters @ [tvalue (currentToken tokens (pos + 1))]) (pos + 2)
     else Ok parameters pos)"
  by pat_completeness auto
termination
  by (relation "measure (\<lambda>(tokens, parameters, pos). length tokens - pos)")
     (auto simp: currentToken_def split: if_splits)

definition parseParameters :: "Token list \<Rightarrow> nat \<Rightarrow> string list result" where
  "parseParameters tokens pos =
    (if cur tokens pos \<noteq> RIGHT_PAREN then
       if cur tokens pos \<noteq> IDENTIFIER then Throw ''Expected parameter name'' pos
       else parseParameters_loop tokens [tvalue (currentToken tokens pos)] (pos + 1)
     else Ok [] pos)"

text \<open>
  \<^verbatim>\<open>parseExpression\<close>, \<^verbatim>\<open>parseTerm\<close>, \<^verbatim>\<open>parseFactor\<close> and \<^verbatim>\<open>parsePrimary\<close>. Each
  \<open>_loop\<close> function is the \<^verbatim>\<open>while\<close> loop of the function it is named after, with the
  node built so far as \<open>left\<close> (or the arguments so far as \<open>args\<close>). The \<^verbatim>\<open>default:\<close>
  branches that throw "Unexpected operator" cannot be reached, since the loop condition
  has already tested the token type.
\<close>

function parseExpression :: "nat \<Rightarrow> Token list \<Rightarrow> nat \<Rightarrow> ASTNode result option"
  and parseExpression_loop :: "nat \<Rightarrow> Token list \<Rightarrow> ASTNode \<Rightarrow> nat \<Rightarrow> ASTNode result option"
  and parseTerm :: "nat \<Rightarrow> Token list \<Rightarrow> nat \<Rightarrow> ASTNode result option"
  and parseTerm_loop :: "nat \<Rightarrow> Token list \<Rightarrow> ASTNode \<Rightarrow> nat \<Rightarrow> ASTNode result option"
  and parseFactor :: "nat \<Rightarrow> Token list \<Rightarrow> nat \<Rightarrow> ASTNode result option"
  and parseFactor_loop :: "nat \<Rightarrow> Token list \<Rightarrow> ASTNode \<Rightarrow> nat \<Rightarrow> ASTNode result option"
  and parsePrimary :: "nat \<Rightarrow> Token list \<Rightarrow> nat \<Rightarrow> ASTNode result option"
  and parseArguments_loop :: "nat \<Rightarrow> Token list \<Rightarrow> ASTNode list \<Rightarrow> nat \<Rightarrow> ASTNode list result option"
where
  "parseExpression 0 tokens pos = None"
| "parseExpression (Suc fuel) tokens pos =
    bind (parseTerm fuel tokens pos) (parseExpression_loop fuel tokens)"
| "parseExpression_loop 0 tokens left pos = None"
| "parseExpression_loop (Suc fuel) tokens left pos =
    (if cur tokens pos = ASSIGN \<or> cur tokens pos = EQUALS \<or> cur tokens pos = NOT_EQUALS \<or>
        cur tokens pos = GREATER \<or> cur tokens pos = LESS
     then
       let op = (if cur tokens pos = ASSIGN then Assign
                 else if cur tokens pos = EQUALS then Equals
                 else if cur tokens pos = NOT_EQUALS then NotEquals
                 else if cur tokens pos = GREATER then Greater
                 else Less);
           pos1 = pos + 1;
           pos2 = (if (op = Greater \<or> op = Less) \<and> cur tokens pos1 = IDENTIFIER \<and>
                      tvalue (currentToken tokens pos1) = ''than''
                   then pos1 + 1 else pos1)
       in bind (parseTerm fuel tokens pos2) (\<lambda>right.
            parseExpression_loop fuel tokens (BinaryOpNode op left right))
     else return left pos)"
| "parseTerm 0 tokens pos = None"
| "parseTerm (Suc fuel) tokens pos =
    bind (parseFactor fuel tokens pos) (parseTerm_loop fuel tokens)"
| "parseTerm_loop 0 tokens left pos = None"
| "parseTerm_loop (Suc fuel) tokens left pos =
    (if cur tokens pos = PLUS \<or> cur tokens pos = MINUS
     then
       let op = (if cur tokens pos = PLUS then Add else Subtract) in
       bind (parseFactor fuel tokens (pos + 1)) (\<lambda>right.
         parseTerm_loop fuel tokens (BinaryOpNode op left right))
     else return left pos)"
| "parseFactor 0 tokens pos = None"
| "parseFactor (Suc fuel) tokens pos =
    bind (parsePrimary fuel tokens pos) (parseFactor_loop fuel tokens)"
| "parseFactor_loop 0 tokens left pos = None"
| "parseFactor_loop (Suc fuel) tokens left pos =
    (if cur tokens pos = MULTIPLY \<or> cur tokens pos = DIVIDE
     then
       let op = (if cur tokens pos = MULTIPLY then Multiply else Divide);
           pos1 = pos + 1;
           pos2 = (if op = Divide \<and> cur tokens pos1 = IDENTIFIER \<and>
                      tvalue (currentToken tokens pos1) = ''by''
                   then pos1 + 1 else pos1)
       in bind (parsePrimary fuel tokens pos2) (\<lambda>right.
            parseFactor_loop fuel tokens (BinaryOpNode op left right))
     else return left pos)"
| "parsePrimary 0 tokens pos = None"
| "parsePrimary (Suc fuel) tokens pos =
    (if cur tokens pos = NUMBER then
       (case stod (tvalue (currentToken tokens pos)) of
          None \<Rightarrow> throw ''stod'' pos
        | Some v \<Rightarrow> return (NumberNode v) (pos + 1))
     else if cur tokens pos = STRING
       then return (StringNode (tvalue (currentToken tokens pos))) (pos + 1)
     else if cur tokens pos = IDENTIFIER then
       (let name = tvalue (currentToken tokens pos) in
        if cur tokens (pos + 1) = LEFT_PAREN then
          bind (if cur tokens (pos + 2) \<noteq> RIGHT_PAREN
                then bind (parseExpression fuel tokens (pos + 2))
                       (\<lambda>arg. parseArguments_loop fuel tokens [arg])
                else return [] (pos + 2))
            (\<lambda>args p.
               if cur tokens p \<noteq> RIGHT_PAREN
               then throw ''Expected ')' after function arguments'' p
               else return (CallNode name args) (p + 1))
        else return (IdentifierNode name) (pos + 1))
     else if cur tokens pos = LEFT_PAREN then
       bind (parseExpression fuel tokens (pos + 1)) (\<lambda>expr p.
         if cur tokens p \<noteq> RIGHT_PAREN then throw (''Expected ')'' @ [CHR 0x27]) p
         else return expr (p + 1))
     else throw (''Unexpected token: '' @ tvalue (currentToken tokens pos)) pos)"
| "parseArguments_loop 0 tokens args pos = None"
| "parseArguments_loop (Suc fuel) tokens args pos =
    (if cur tokens pos = COMMA
     then bind (parseExpression fuel tokens (pos + 1)) (\<lambda>arg.
            parseArguments_loop fuel tokens (args @ [arg]))
     else return args pos)"

  by pat_completeness auto
termination
  by (relation "measure (case_sum (case_sum (case_sum fst fst) (case_sum fst fst)) (case_sum (case_sum fst fst) (case_sum fst fst)))") auto

text \<open>The statement level: \<^verbatim>\<open>parseStatement\<close>, \<^verbatim>\<open>parseBlock\<close> and the functions for the
  statement kinds.\<close>

function parseStatement :: "nat \<Rightarrow> Token list \<Rightarrow> nat \<Rightarrow> ASTNode option result option"
  and parseBlock :: "nat \<Rightarrow> Token list \<Rightarrow> nat \<Rightarrow> ASTNode result option"
  and parseBlock_loop :: "nat \<Rightarrow> Token list \<Rightarrow> ASTNode list \<Rightarrow> nat \<Rightarrow> ASTNode list result option"
  and parseVariableDeclaration :: "nat \<Rightarrow> Token list \<Rightarrow> nat \<Rightarrow> ASTNode result option"
  and parseFunction :: "nat \<Rightarrow> Token list \<Rightarrow> nat \<Rightarrow> ASTNode result option"
  and parseIfStatement :: "nat \<Rightarrow> Token list \<Rightarrow> nat \<Rightarrow> ASTNode result option"
  and parseWhileLoop :: "nat \<Rightarrow> Token list \<Rightarrow> nat \<Rightarrow> ASTNode result option"
  and parsePrintStatement :: "nat \<Rightarrow> Token list \<Rightarrow> nat \<Rightarrow> ASTNode result option"
where
  "parseStatement 0 tokens pos = None"
| "parseStatement (Suc fuel) tokens pos0 =
    (let pos = skipEOL tokens pos0 in
     if cur tokens pos = END_OF_FILE then return None pos
     else if cur tokens pos = FUNCTION
       then bind (parseFunction fuel tokens pos) (\<lambda>n. return (Some n))
     else if cur tokens pos = VARIABLE \<or> cur tokens pos = CONSTANT
       then bind (parseVariableDeclaration fuel tokens pos) (\<lambda>n. return (Some n))
     else if cur tokens pos = IF
       then bind (parseIfStatement fuel tokens pos) (\<lambda>n. return (Some n))
     else if cur tokens pos = WHILE
       then bind (parseWhileLoop fuel tokens pos) (\<lambda>n. return (Some n))
     else if cur tokens pos = PRINT
       then bind (parsePrintStatement fuel tokens pos) (\<lambda>n. return (Some n))
     else if cur tokens pos = RETURN
       then bind (parseExpression fuel tokens (pos + 1))
              (\<lambda>returnValue. return (Some (ReturnNode returnValue)))
     else if cur tokens pos = LEFT_BRACE
       then bind (parseBlock fuel tokens pos) (\<lambda>n. return (Some n))
     else bind (parseExpression fuel tokens pos) (\<lambda>expr. return (Some expr)))"
| "parseBlock 0 tokens pos = None"
| "parseBlock (Suc fuel) tokens pos =
    (if cur tokens pos \<noteq> LEFT_BRACE
     then throw ''Expected '{' at the beginning of a block'' pos
     else bind (parseBlock_loop fuel tokens [] (pos + 1)) (\<lambda>statements p.
       if cur tokens p \<noteq> RIGHT_BRACE
       then throw ''Expected '}' at the end of a block'' p
       else return (BlockNode statements) (p + 1)))"
| "parseBlock_loop 0 tokens statements pos = None"
| "parseBlock_loop (Suc fuel) tokens statements pos =
    (if cur tokens pos \<noteq> RIGHT_BRACE \<and> cur tokens pos \<noteq> END_OF_FILE
     then bind (parseStatement fuel tokens pos) (\<lambda>statement.
            parseBlock_loop fuel tokens
              (case statement of None \<Rightarrow> statements | Some n \<Rightarrow> statements @ [n]))
     else return statements pos)"
| "parseVariableDeclaration 0 tokens pos = None"
| "parseVariableDeclaration (Suc fuel) tokens pos =
    (let isConstant = (cur tokens pos = CONSTANT) in
     if cur tokens (pos + 1) \<noteq> IDENTIFIER
     then throw (''Expected identifier after 'var' or 'const'' @ [CHR 0x27]) (pos + 1)
     else
       let varName = tvalue (currentToken tokens (pos + 1)) in
       if cur tokens (pos + 2) \<noteq> ASSIGN
       then throw ''Expected 'is' after variable name'' (pos + 2)
       else bind (parseExpression fuel tokens (pos + 3)) (\<lambda>initialValue.
              return (VariableDeclarationNode varName isConstant initialValue)))"
| "parseFunction 0 tokens pos = None"
| "parseFunction (Suc fuel) tokens pos =
    (if cur tokens (pos + 1) \<noteq> IDENTIFIER then throw ''Expected function name'' (pos + 1)
     else
       let name = tvalue (currentToken tokens (pos + 1)) in
       if cur tokens (pos + 2) \<noteq> LEFT_PAREN
       then throw ''Expected '(' after function name'' (pos + 2)
       else bind (Some (parseParameters tokens (pos + 3))) (\<lambda>parameters p.
         if cur tokens p \<noteq> RIGHT_PAREN then throw ''Expected ')' after parameters'' p
         else bind (parseBlock fuel tokens (p + 1)) (\<lambda>body p'.
           if \<not> isBlockNode body then throw ''Expected function body'' p'
           else return (FunctionNode name parameters body) p')))"
| "parseIfStatement 0 tokens pos = None"
| "parseIfStatement (Suc fuel) tokens pos =
    bind (parseExpression fuel tokens (pos + 1)) (\<lambda>condition p.
      bind (parseBlock fuel tokens p) (\<lambda>thenBlock p1.
        if \<not> isBlockNode thenBlock then throw ''Expected block after if condition'' p1
        else if cur tokens p1 = ELSE then
          bind (parseBlock fuel tokens (p1 + 1)) (\<lambda>elseBlock p2.
            if \<not> isBlockNode elseBlock then throw ''Expected block after else'' p2
            else return (IfNode condition thenBlock (Some elseBlock)) p2)
        else return (IfNode condition thenBlock None) p1))"
| "parseWhileLoop 0 tokens pos = None"
| "parseWhileLoop (Suc fuel) tokens pos =
    bind (parseExpression fuel tokens (pos + 1)) (\<lambda>condition p.
      bind (parseBlock fuel tokens p) (\<lambda>body p1.
        if \<not> isBlockNode body then throw ''Expected block after while condition'' p1
        else return (WhileNode condition body) p1))"
| "parsePrintStatement 0 tokens pos = None"
| "parsePrintStatement (Suc fuel) tokens pos =
    bind (parseExpression fuel tokens (pos + 1)) (\<lambda>expr. return (PrintNode expr))"

  by pat_completeness auto
termination
  by (relation "measure (case_sum (case_sum (case_sum fst fst) (case_sum fst fst)) (case_sum (case_sum fst fst) (case_sum fst fst)))") auto

text \<open>
  A line written to \<^verbatim>\<open>std::cerr\<close> by \<^verbatim>\<open>parseProgram\<close>:
  \<^verbatim>\<open>"Parser error at line L, column C: what"\<close>, as the line, the column and the message.
\<close>

datatype Diagnostic = ParserError nat nat string

text \<open>
  \<^verbatim>\<open>Parser::parseProgram\<close>: the loop with its \<^verbatim>\<open>try\<close>/\<^verbatim>\<open>catch\<close>. It returns the program
  node, the diagnostics written and the final cursor.
\<close>

function parseProgram_loop ::
  "nat \<Rightarrow> Token list \<Rightarrow> ASTNode list \<Rightarrow> Diagnostic list \<Rightarrow> nat \<Rightarrow>
   (ASTNode \<times> Diagnostic list \<times> nat) option" where
  "parseProgram_loop 0 tokens statements cerr pos = None"
| "parseProgram_loop (Suc fuel) tokens statements cerr pos =
    (if cur tokens pos \<noteq> END_OF_FILE then
       (case parseStatement fuel tokens pos of
          None \<Rightarrow> None
        | Some (Ok statement p) \<Rightarrow>
            parseProgram_loop fuel tokens
              (case statement of None \<Rightarrow> statements | Some n \<Rightarrow> statements @ [n]) cerr p
        | Some (Throw what p) \<Rightarrow>
            (let diagnostic =
                   ParserError (tline (currentToken tokens p)) (tcolumn (currentToken tokens p)) what;
                 p1 = skipToEOL tokens p;
                 p2 = (if cur tokens p1 = EOL then p1 + 1 else p1)
             in parseProgram_loop fuel tokens statements (cerr @ [diagnostic]) p2))
     else Some (ProgramNode statements, cerr, pos))"
  by pat_completeness auto
termination
  by (relation "measure (\<lambda>(fuel, tokens, statements, cerr, pos). fuel)") auto

definition parseProgram :: "nat \<Rightarrow> Token list \<Rightarrow> (ASTNode \<times> Diagnostic list \<times> nat) option" where
  "parseProgram fuel tokens = parseProgram_loop fuel tokens [] [] 0"

definition parse :: "nat \<Rightarrow> Token list \<Rightarrow> (ASTNode \<times> Diagnostic list \<times> nat) option" where
  "parse fuel tokens = parseProgram fuel tokens"

text \<open>The order in which a result with more fuel extends one with less.\<close>

definition fuel_le :: "'a option \<Rightarrow> 'a option \<Rightarrow> bool" where
  "fuel_le a b = (a = None \<or> a = b)"


section \<open>Code generator (codegen.h, codegen.cpp)\<close>

text \<open>
  The generator drives LLVM's \<^verbatim>\<open>IRBuilder\<close> and \<^verbatim>\<open>Module\<close>. The model keeps what the
  generator itself can observe of them or what the claims speak of: the type of a value
  (\<^verbatim>\<open>getType()->isIntegerTy(1)\<close>, \<^verbatim>\<open>isPointerTy()\<close>), the insertion block and its parent
  function, the entry block of a function, whether a block ends in a terminator, the
  functions of the module by name, and the instructions in the order of the
  \<^verbatim>\<open>Create...\<close> calls that made them. The constant folding that the builder applies when
  all operands of an operation are constants is not modelled: every \<^verbatim>\<open>Create...\<close> call is
  recorded as an instruction, with the type LLVM gives its result.

  The four LLVM types that occur.
\<close>

datatype Type = DoubleTy | Int1Ty | PointerTy | VoidTy

text \<open>
  \<^verbatim>\<open>llvm::Value*\<close>: a floating-point constant, the \<open>idx\<close>-th argument of function \<open>f\<close>,
  the pointer to the \<open>n\<close>-th global string, or the result of the \<open>n\<close>-th instruction
  created, with its type. A null pointer is \<open>None\<close> of \<open>Value option\<close>.
\<close>

datatype Value =
    ConstantFP real
  | Argument nat nat
  | GlobalString nat
  | Instruction nat Type

fun getType :: "Value \<Rightarrow> Type" where
  "getType (ConstantFP v) = DoubleTy"
| "getType (Argument f idx) = DoubleTy"
| "getType (GlobalString n) = PointerTy"
| "getType (Instruction n ty) = ty"

text \<open>
  The instructions the generator creates. \<open>BinaryOperator\<close> covers the four arithmetic
  operations and the four ordered comparisons, with the name given to the result;
  \<open>Call f args name\<close> calls the \<open>f\<close>-th function of the module; the operands of \<open>CondBr\<close>
  and \<open>Br\<close> are block numbers. \<^verbatim>\<open>CreateStore\<close> and \<^verbatim>\<open>CreateRet\<close> are handed
  \<^verbatim>\<open>currentValue\<close> unchecked, so their value operand may be null.
\<close>

datatype Opcode = FAdd | FSub | FMul | FDiv | FCmpOEQ | FCmpONE | FCmpOGT | FCmpOLT

datatype Instr =
    Alloca string
  | Store "Value option" Value
  | Load Value string
  | BinaryOperator Opcode Value Value string
  | Call nat "Value option list" string
  | CondBr Value nat nat
  | Br nat
  | Ret "Value option"

fun isTerminator :: "Instr \<Rightarrow> bool" where
  "isTerminator (CondBr c t e) = True"
| "isTerminator (Br b) = True"
| "isTerminator (Ret v) = True"
| "isTerminator i = False"

text \<open>
  An instruction together with where the builder put it: the block (\<open>None\<close> when the
  builder had no insertion point, in which case LLVM creates the instruction but links
  it into no block), and whether it went to the beginning of the block (the temporary
  builder of \<^verbatim>\<open>visit(VariableDeclarationNode&)\<close>) or to its end.
\<close>

datatype Placed = Placed (pblock: "nat option") (pfront: bool) (pinstr: Instr)

text \<open>
  A function of the module: name, parameter names, return type and its blocks in the
  order in which they were inserted; the first one is the entry block. LLVM renames a
  function or an argument whose name is already taken; the model keeps the name asked
  for, and \<open>getFunction\<close> returns the first function of that name, which is the one
  LLVM leaves unrenamed.
\<close>

record LLVMFunction =
  fname :: string
  fparams :: "string list"
  freturn :: Type
  fblocks :: "nat list"

record BasicBlock =
  bname :: string
  bparent :: "nat option"

text \<open>
  \<^verbatim>\<open>class CodeGenerator\<close>: the module (functions, global strings, blocks, and all
  instructions in the order of their creation), the builder's insertion block,
  \<^verbatim>\<open>namedValues\<close>, \<^verbatim>\<open>currentValue\<close>, and the lines written to \<^verbatim>\<open>std::cerr\<close>.
  \<^verbatim>\<open>namedValues\<close> is a \<^verbatim>\<open>std::map<std::string, llvm::Value*>\<close>: a key may be present
  with a null pointer (\<open>Some None\<close>), which is what \<^verbatim>\<open>operator[]\<close> inserts for a key it
  does not find.
\<close>

record CodeGenerator =
  moduleFunctions :: "LLVMFunction list"
  moduleGlobals :: "string list"
  blocks :: "BasicBlock list"
  instructions :: "Placed list"
  insertBlock :: "nat option"
  namedValues :: "string \<rightharpoonup> Value option"
  currentValue :: "Value option"
  diagnostics :: "string list"

text \<open>
  Where the generator calls a member function through a pointer that is null
  (\<^verbatim>\<open>builder->GetInsertBlock()->getParent()\<close> with no insertion point,
  \<^verbatim>\<open>currentValue->getType()\<close> after a failed expression) the behaviour is undefined and
  the process dies in practice; the model ends the visit with \<open>Inl NullDereference\<close>.
\<close>

datatype Crash = NullDereference

definition bindE :: "Crash + 'a \<Rightarrow> ('a \<Rightarrow> Crash + 'b) \<Rightarrow> Crash + 'b" where
  "bindE m k = (case m of Inl e \<Rightarrow> Inl e | Inr a \<Rightarrow> k a)"

text \<open>\<^verbatim>\<open>CodeGenerator::declareStandardFunctions\<close> and the constructor. A fresh
  \<^verbatim>\<open>IRBuilder\<close> has no insertion point.\<close>

definition declareStandardFunctions :: "LLVMFunction list" where
  "declareStandardFunctions =
    [\<lparr>fname = ''printDouble'', fparams = [''''], freturn = VoidTy, fblocks = []\<rparr>,
     \<lparr>fname = ''printString'', fparams = [''''], freturn = VoidTy, fblocks = []\<rparr>]"

definition new_CodeGenerator :: CodeGenerator where
  "new_CodeGenerator =
    \<lparr>moduleFunctions = declareStandardFunctions, moduleGlobals = [], blocks = [], instructions = [],
     insertBlock = None, namedValues = Map.empty, currentValue = None, diagnostics = []\<rparr>"

text \<open>
  The builder's insertion of a new instruction at its insertion point, and the temporary
  builder's insertion at the beginning of block \<open>b\<close>. Both return the new value.
\<close>

definition Insert :: "Instr \<Rightarrow> Type \<Rightarrow> CodeGenerator \<Rightarrow> Value \<times> CodeGenerator" where
  "Insert i ty g =
    (Instruction (length (instructions g)) ty,
     g\<lparr>instructions := instructions g @ [Placed (insertBlock g) False i]\<rparr>)"

definition InsertAtBegin :: "nat \<Rightarrow> Instr \<Rightarrow> Type \<Rightarrow> CodeGenerator \<Rightarrow> Value \<times> CodeGenerator" where
  "InsertAtBegin b i ty g =
    (Instruction (length (instructions g)) ty,
     g\<lparr>instructions := instructions g @ [Placed (Some b) True i]\<rparr>)"

text \<open>
  The instructions of block \<open>b\<close> in block order: those put at its beginning, latest first,
  then those appended. \<^verbatim>\<open>BasicBlock::getTerminator()\<close> is the last instruction of the
  block if that is a terminator, and null otherwise.
\<close>

definition blockInstrs :: "nat \<Rightarrow> CodeGenerator \<Rightarrow> Instr list" where
  "blockInstrs b g =
    rev (map pinstr (filter (\<lambda>p. pblock p = Some b \<and> pfront p) (instructions g))) @
    map pinstr (filter (\<lambda>p. pblock p = Some b \<and> \<not> pfront p) (instructions g))"

definition getTerminator :: "nat \<Rightarrow> CodeGenerator \<Rightarrow> Instr option" where
  "getTerminator b g =
    (if blockInstrs b g = [] \<or> \<not> isTerminator (last (blockInstrs b g)) then None
     else Some (last (blockInstrs b g)))"

text \<open>
  \<^verbatim>\<open>BasicBlock::getParent()\<close>; \<^verbatim>\<open>BasicBlock::Create(context, name, parent)\<close>, which
  inserts the new block into \<open>parent\<close> only if that is not null; and
  \<^verbatim>\<open>BasicBlock::insertInto(parent)\<close>. Block numbers come from \<open>BasicBlock_Create\<close> only, so
  they are always below \<open>length (blocks g)\<close>.
\<close>

definition getParent :: "nat \<Rightarrow> CodeGenerator \<Rightarrow> nat option" where
  "getParent b g = bparent (blocks g ! b)"

definition appendBlock :: "nat \<Rightarrow> nat \<Rightarrow> LLVMFunction list \<Rightarrow> LLVMFunction list" where
  "appendBlock f b fs = fs[f := (fs ! f)\<lparr>fblocks := fblocks (fs ! f) @ [b]\<rparr>]"

definition BasicBlock_Create :: "string \<Rightarrow> nat option \<Rightarrow> CodeGenerator \<Rightarrow> nat \<times> CodeGenerator" where
  "BasicBlock_Create name parent g =
    (let b = length (blocks g);
         g1 = g\<lparr>blocks := blocks g @ [\<lparr>bname = name, bparent = parent\<rparr>]\<rparr>
     in case parent of
          None \<Rightarrow> (b, g1)
        | Some f \<Rightarrow> (b, g1\<lparr>moduleFunctions := appendBlock f b (moduleFunctions g1)\<rparr>))"

definition insertInto :: "nat \<Rightarrow> nat option \<Rightarrow> CodeGenerator \<Rightarrow> Crash + CodeGenerator" where
  "insertInto b parent g =
    (case parent of
       None \<Rightarrow> Inl NullDereference
     | Some f \<Rightarrow>
         Inr (g\<lparr>blocks := (blocks g)[b := (blocks g ! b)\<lparr>bparent := Some f\<rparr>],
                moduleFunctions := appendBlock f b (moduleFunctions g)\<rparr>))"

text \<open>\<^verbatim>\<open>Module::getFunction(name)\<close>\<close>

fun getFunction_from :: "nat \<Rightarrow> string \<Rightarrow> LLVMFunction list \<Rightarrow> nat option" where
  "getFunction_from i name [] = None"
| "getFunction_from i name (f # fs) =
    (if fname f = name then Some i else getFunction_from (i + 1) name fs)"

definition getFunction :: "string \<Rightarrow> CodeGenerator \<Rightarrow> nat option" where
  "getFunction name g = getFunction_from 0 name (moduleFunctions g)"

text \<open>\<^verbatim>\<open>namedValues[name]\<close> as an rvalue: the pointer stored, null for a key that was
  missing, which is then present.\<close>

definition namedValues_index :: "string \<Rightarrow> CodeGenerator \<Rightarrow> Value option \<times> CodeGenerator" where
  "namedValues_index name g =
    (case namedValues g name of
       None \<Rightarrow> (None, g\<lparr>namedValues := (namedValues g)(name \<mapsto> None)\<rparr>)
     | Some v \<Rightarrow> (v, g))"

text \<open>A line on \<^verbatim>\<open>std::cerr\<close>.\<close>

definition report :: "string \<Rightarrow> CodeGenerator \<Rightarrow> CodeGenerator" where
  "report msg g = g\<lparr>diagnostics := diagnostics g @ [msg]\<rparr>"

text \<open>
  \<^verbatim>\<open>CodeGenerator::generateBinaryOp\<close> after it has visited both operands: the null test
  and the \<^verbatim>\<open>switch\<close>. The two visits themselves are in the equation of \<open>visit\<close> for
  \<open>BinaryOpNode\<close> below. An arithmetic result has the type of its left operand, a
  comparison result is a 1-bit integer.
\<close>

definition arithmetic :: "Opcode \<Rightarrow> string \<Rightarrow> Value \<Rightarrow> Value \<Rightarrow> CodeGenerator \<Rightarrow> Value option \<times> CodeGenerator" where
  "arithmetic oc name l r g =
    (let (v, g1) = Insert (BinaryOperator oc l r name) (getType l) g in (Some v, g1))"

definition comparison :: "Opcode \<Rightarrow> string \<Rightarrow> Value \<Rightarrow> Value \<Rightarrow> CodeGenerator \<Rightarrow> Value option \<times> CodeGenerator" where
  "comparison oc name l r g =
    (let (v, g1) = Insert (BinaryOperator oc l r name) Int1Ty g in (Some v, g1))"

definition generateBinaryOp ::
  "Op \<Rightarrow> ASTNode \<Rightarrow> Value option \<Rightarrow> Value option \<Rightarrow> CodeGenerator \<Rightarrow> Value option \<times> CodeGenerator" where
  "generateBinaryOp operation leftNode left right g =
    (case (left, right) of
       (Some l, Some r) \<Rightarrow>
         (case operation of
            Add \<Rightarrow> arithmetic FAdd ''addtmp'' l r g
          | Subtract \<Rightarrow> arithmetic FSub ''subtmp'' l r g
          | Multiply \<Rightarrow> arithmetic FMul ''multmp'' l r g
          | Divide \<Rightarrow> arithmetic FDiv ''divtmp'' l r g
          | Assign \<Rightarrow>
              (case leftNode of
                 IdentifierNode name \<Rightarrow>
                   (let (variable, g1) = namedValues_index name g in
                    case variable of
                      None \<Rightarrow> (None, report (''Unknown variable: '' @ name) g1)
                    | Some var \<Rightarrow> (Some r, snd (Insert (Store (Some r) var) VoidTy g1)))
               | _ \<Rightarrow> (None, report ''Left side of assignment must be a variable'' g))
          | Equals \<Rightarrow> comparison FCmpOEQ ''eqtmp'' l r g
          | NotEquals \<Rightarrow> comparison FCmpONE ''neqtmp'' l r g
          | Greater \<Rightarrow> comparison FCmpOGT ''gttmp'' l r g
          | Less \<Rightarrow> comparison FCmpOLT ''lttmp'' l r g)
     | _ \<Rightarrow> (None, g))"

text \<open>The second \<^verbatim>\<open>for (auto& arg : function->args())\<close> loop of
  \<^verbatim>\<open>visit(FunctionNode&)\<close>: a slot for every argument, bound to its name.\<close>

fun storeArguments :: "nat \<Rightarrow> string list \<Rightarrow> nat \<Rightarrow> CodeGenerator \<Rightarrow> CodeGenerator" where
  "storeArguments f [] idx g = g"
| "storeArguments f (p # ps) idx g =
    (let (alloca, g1) = Insert (Alloca p) PointerTy g;
         (st, g2) = Insert (Store (Some (Argument f idx)) alloca) VoidTy g1
     in storeArguments f ps (idx + 1) (g2\<lparr>namedValues := (namedValues g2)(p \<mapsto> Some alloca)\<rparr>))"

text \<open>
  The conversion of a condition in \<^verbatim>\<open>visit(IfNode&)\<close> and \<^verbatim>\<open>visit(WhileNode&)\<close>:
  \<^verbatim>\<open>if (!condValue->getType()->isIntegerTy(1)) condValue = builder->CreateFCmpONE(condValue, 0.0, name)\<close>.
\<close>

definition coerceCondition :: "string \<Rightarrow> Value \<Rightarrow> CodeGenerator \<Rightarrow> Value \<times> CodeGenerator" where
  "coerceCondition name condValue g =
    (if getType condValue \<noteq> Int1Ty
     then Insert (BinaryOperator FCmpONE condValue (ConstantFP 0) name) Int1Ty g
     else (condValue, g))"

text \<open>\<^verbatim>\<open>if (!builder->GetInsertBlock()->getTerminator()) builder->CreateBr(target);\<close>\<close>

definition branchUnlessTerminated :: "nat \<Rightarrow> CodeGenerator \<Rightarrow> Crash + CodeGenerator" where
  "branchUnlessTerminated target g =
    (case insertBlock g of
       None \<Rightarrow> Inl NullDereference
     | Some bb \<Rightarrow>
         if getTerminator bb g = None then Inr (snd (Insert (Br target) VoidTy g)) else Inr g)"

text \<open>
  The \<^verbatim>\<open>visit\<close> overloads, one equation per node class (\<^verbatim>\<open>accept\<close> only dispatches).
  \<open>visit_statements\<close> is the loop over \<^verbatim>\<open>node.statements\<close>, \<open>visit_arguments\<close> the loop
  of \<^verbatim>\<open>visit(CallNode&)\<close> that collects \<^verbatim>\<open>argsV\<close>, and \<open>visit_optional\<close> the visit of a
  child that may be null. \<^verbatim>\<open>llvm::verifyFunction\<close> changes nothing and its result is
  ignored. \<^verbatim>\<open>CreateGlobalStringPtr\<close> reaches the module through the insertion block, so
  it fails like the generator's own dereferences when there is none. A function that
  owns the insertion block has that block at least, so the \<open>[]\<close> case of
  \<^verbatim>\<open>getEntryBlock()\<close> is there for totality only.
\<close>

function visit :: "ASTNode \<Rightarrow> CodeGenerator \<Rightarrow> Crash + CodeGenerator"
  and visit_statements :: "ASTNode list \<Rightarrow> CodeGenerator \<Rightarrow> Crash + CodeGenerator"
  and visit_arguments ::
    "ASTNode list \<Rightarrow> Value option list \<Rightarrow> CodeGenerator \<Rightarrow> Crash + Value option list \<times> CodeGenerator"
  and visit_optional :: "ASTNode option \<Rightarrow> CodeGenerator \<Rightarrow> Crash + CodeGenerator"
where
  "visit (ProgramNode stmts) g = visit_statements stmts g"
| "visit (BlockNode stmts) g = visit_statements stmts g"
| "visit (VariableDeclarationNode name isConstant initialValue) g =
    bindE (visit initialValue g) (\<lambda>g1.
      case insertBlock g1 of
        None \<Rightarrow> Inl NullDereference
      | Some bb \<Rightarrow>
          (case getParent bb g1 of
             None \<Rightarrow> Inl NullDereference
           | Some f \<Rightarrow>
               (case fblocks (moduleFunctions g1 ! f) of
                  [] \<Rightarrow> Inl NullDereference
                | entry # bs \<Rightarrow>
                    (let (alloca, g2) = InsertAtBegin entry (Alloca name) PointerTy g1;
                         (st, g3) = Insert (Store (currentValue g1) alloca) VoidTy g2
                     in Inr (g3\<lparr>namedValues := (namedValues g3)(name \<mapsto> Some alloca)\<rparr>)))))"
| "visit (BinaryOpNode operation leftNode rightNode) g =
    bindE (visit leftNode g) (\<lambda>g1.
      bindE (visit rightNode g1) (\<lambda>g2.
        (let (v, g3) = generateBinaryOp operation leftNode (currentValue g1) (currentValue g2) g2
         in Inr (g3\<lparr>currentValue := v\<rparr>))))"
| "visit (NumberNode v) g = Inr (g\<lparr>currentValue := Some (ConstantFP v)\<rparr>)"
| "visit (StringNode v) g =
    (case insertBlock g of
       None \<Rightarrow> Inl NullDereference
     | Some bb \<Rightarrow>
         Inr (g\<lparr>moduleGlobals := moduleGlobals g @ [v],
                currentValue := Some (GlobalString (length (moduleGlobals g)))\<rparr>))"
| "visit (IdentifierNode name) g =
    (let (variable, g1) = namedValues_index name g in
     case variable of
       None \<Rightarrow> Inr ((report (''Unknown variable: '' @ name) g1)\<lparr>currentValue := None\<rparr>)
     | Some var \<Rightarrow>
         (let (v, g2) = Insert (Load var name) DoubleTy g1
          in Inr (g2\<lparr>currentValue := Some v\<rparr>)))"
| "visit (FunctionNode name parameters body) g =
    (let f = length (moduleFunctions g);
         g1 = g\<lparr>moduleFunctions := moduleFunctions g @
                [\<lparr>fname = name, fparams = parameters, freturn = DoubleTy, fblocks = []\<rparr>]\<rparr>;
         (entryBB, g2) = BasicBlock_Create ''entry'' (Some f) g1;
         g3 = g2\<lparr>insertBlock := Some entryBB\<rparr>;
         oldNamedValues = namedValues g3;
         g4 = g3\<lparr>namedValues := Map.empty\<rparr>;
         g5 = storeArguments f parameters 0 g4
     in bindE (visit body g5) (\<lambda>g6.
          case insertBlock g6 of
            None \<Rightarrow> Inl NullDereference
          | Some bb \<Rightarrow>
              (let g7 = (if getTerminator bb g6 = None
                         then snd (Insert (Ret (Some (ConstantFP 0))) VoidTy g6) else g6)
               in Inr (g7\<lparr>namedValues := oldNamedValues\<rparr>))))"
| "visit (CallNode callee arguments) g =
    (case getFunction callee g of
       None \<Rightarrow> Inr ((report (''Unknown function: '' @ callee) g)\<lparr>currentValue := None\<rparr>)
     | Some calleeF \<Rightarrow>
         if length (fparams (moduleFunctions g ! calleeF)) \<noteq> length arguments
         then Inr ((report (''Incorrect number of arguments for function '' @ callee) g)
                     \<lparr>currentValue := None\<rparr>)
         else bindE (visit_arguments arguments [] g) (\<lambda>(argsV, g1).
                (let (v, g2) = Insert (Call calleeF argsV ''calltmp'')
                                 (freturn (moduleFunctions g1 ! calleeF)) g1
                 in Inr (g2\<lparr>currentValue := Some v\<rparr>))))"
| "visit (IfNode condition thenBlock elseBlock) g =
    bindE (visit condition g) (\<lambda>g1.
      case currentValue g1 of
        None \<Rightarrow> Inl NullDereference
      | Some cv \<Rightarrow>
          (let (condValue, g2) = coerceCondition ''ifcond'' cv g1 in
           case insertBlock g2 of
             None \<Rightarrow> Inl NullDereference
           | Some bb \<Rightarrow>
               (let function = getParent bb g2;
                    (thenBB, g3) = BasicBlock_Create ''then'' function g2;
                    (elseBB, g4) = BasicBlock_Create ''else'' None g3;
                    (mergeBB, g5) = BasicBlock_Create ''ifcont'' None g4;
                    (br, g6) = Insert (CondBr condValue thenBB elseBB) VoidTy g5
                in bindE (visit thenBlock (g6\<lparr>insertBlock := Some thenBB\<rparr>)) (\<lambda>g7.
                   bindE (branchUnlessTerminated mergeBB g7) (\<lambda>g8.
                   bindE (insertInto elseBB function g8) (\<lambda>g9.
                   bindE (visit_optional elseBlock (g9\<lparr>insertBlock := Some elseBB\<rparr>)) (\<lambda>g10.
                   bindE (branchUnlessTerminated mergeBB g10) (\<lambda>g11.
                   bindE (insertInto mergeBB function g11) (\<lambda>g12.
                     Inr (g12\<lparr>insertBlock := Some mergeBB\<rparr>))))))))))"
| "visit (WhileNode condition body) g =
    (case insertBlock g of
       None \<Rightarrow> Inl NullDereference
     | Some bb \<Rightarrow>
         (let function = getParent bb g;
              (condBB, g1) = BasicBlock_Create ''loopcond'' function g;
              (loopBB, g2) = BasicBlock_Create ''loop'' None g1;
              (afterBB, g3) = BasicBlock_Create ''afterloop'' None g2;
              (br, g4) = Insert (Br condBB) VoidTy g3
          in bindE (visit condition (g4\<lparr>insertBlock := Some condBB\<rparr>)) (\<lambda>g5.
               case currentValue g5 of
                 None \<Rightarrow> Inl NullDereference
               | Some cv \<Rightarrow>
                   (let (condValue, g6) = coerceCondition ''loopcond'' cv g5;
                        (cbr, g7) = Insert (CondBr condValue loopBB afterBB) VoidTy g6
                    in bindE (insertInto loopBB function g7) (\<lambda>g8.
                       bindE (visit body (g8\<lparr>insertBlock := Some loopBB\<rparr>)) (\<lambda>g9.
                       bindE (branchUnlessTerminated condBB g9) (\<lambda>g10.
                       bindE (insertInto afterBB function g10) (\<lambda>g11.
                         Inr (g11\<lparr>insertBlock := Some afterBB\<rparr>)))))))))"
| "visit (PrintNode expression) g =
    bindE (visit expression g) (\<lambda>g1.
      case currentValue g1 of
        None \<Rightarrow> Inl NullDereference
      | Some v \<Rightarrow>
          (case (if getType v = PointerTy then getFunction ''printString'' g1
                 else getFunction ''printDouble'' g1) of
             None \<Rightarrow> Inl NullDereference
           | Some printFunc \<Rightarrow> Inr (snd (Insert (Call printFunc [Some v] []) VoidTy g1))))"
| "visit (ReturnNode val) g =
    bindE (visit val g) (\<lambda>g1. Inr (snd (Insert (Ret (currentValue g1)) VoidTy g1)))"
| "visit_statements [] g = Inr g"
| "visit_statements (statement # stmts) g =
    bindE (visit statement g) (visit_statements stmts)"
| "visit_arguments [] argsV g = Inr (argsV, g)"
| "visit_arguments (arg # arguments) argsV g =
    bindE (visit arg g) (\<lambda>g1. visit_arguments arguments (argsV @ [currentValue g1]) g1)"
| "visit_optional None g = Inr g"
| "visit_optional (Some node) g = visit node g"
  by pat_completeness auto
termination
  apply (relation "measure (case_sum (case_sum (\<lambda>(n, g). size n) (\<lambda>(ns, g). size_list size ns))
           (case_sum (\<lambda>(ns, vs, g). size_list size ns) (\<lambda>(e, g). size_option size e)))")
  apply auto
  done

text \<open>\<^verbatim>\<open>CodeGenerator::generate\<close>, without the dump of the module to standard output.\<close>

definition generate :: "ASTNode \<Rightarrow> CodeGenerator \<Rightarrow> Crash + CodeGenerator" where
  "generate ast g = visit ast g"

text \<open>
  What a condition of value \<open>cv\<close>, evaluated up to state \<open>g\<close>, is followed by: the
  conditional branch on \<open>cv\<close> itself when \<open>cv\<close> is a 1-bit integer, and otherwise one
  comparison \<open>cv != 0.0\<close> and the conditional branch on the result of that comparison.
\<close>

definition conditionCode :: "string \<Rightarrow> Value \<Rightarrow> CodeGenerator \<Rightarrow> nat \<Rightarrow> nat \<Rightarrow> Placed list" where
  "conditionCode name cv g trueBB falseBB =
    (if getType cv = Int1Ty
     then [Placed (insertBlock g) False (CondBr cv trueBB falseBB)]
     else [Placed (insertBlock g) False (BinaryOperator FCmpONE cv (ConstantFP 0) name),
           Placed (insertBlock g) False
             (CondBr (Instruction (length (instructions g)) Int1Ty) trueBB falseBB)])"




definition exampleBuilder :: CodeGenerator where
  "exampleBuilder =
    new_CodeGenerator
      \<lparr>moduleFunctions := declareStandardFunctions @
         [\<lparr>fname = ''f'', fparams = [], freturn = DoubleTy, fblocks = [0]\<rparr>],
       blocks := [\<lparr>bname = ''entry'', bparent = Some 2\<rparr>],
       insertBlock := Some 0\<rparr>"

section \<open>Properties of the lexer\<close>

lemma isspace_NL: "isspace NL"
  by (simp add: isspace_def)

lemma tokenize_loop_unfold:
  "tokenize_loop tokens lx =
    (if currentChar lx \<noteq> NUL
     then tokenize_loop (tokens @ fst (lex_step lx)) (snd (lex_step lx))
     else tokens @ [Token END_OF_FILE [] (line lx) (column lx)])"
  by (subst tokenize_loop.simps) (simp add: lex_step_def isspace_NL)

lemma remaining_lex_step:
  "currentChar lx \<noteq> NUL \<Longrightarrow> remaining (snd (lex_step lx)) < remaining lx"
  by (simp add: lex_step_def remaining_advance remaining_skipWhitespace
      remaining_identifier_tok remaining_number_tok remaining_string_tok remaining_skipComment)

lemma tokenize_loop_step_induct:
  assumes "\<And>tokens lx.
    (currentChar lx \<noteq> NUL \<Longrightarrow> P (tokens @ fst (lex_step lx)) (snd (lex_step lx))) \<Longrightarrow>
    P tokens lx"
  shows "P tokens lx"
proof (induction "remaining lx" arbitrary: tokens lx rule: less_induct)
  case less
  show ?case
    by (rule assms) (rule less, rule remaining_lex_step)
qed

lemma tokenize_loop_ends:
  "\<exists>pre l c. tokenize_loop tokens lx = pre @ [Token END_OF_FILE [] l c]"
proof (induction tokens lx rule: tokenize_loop_step_induct)
  case (1 tokens lx)
  then show ?case by (subst tokenize_loop_unfold) auto
qed

lemma keywordTable_not_EOL: "keywordTable w \<noteq> Some EOL"
  by (simp add: keywordTable_def)

lemma ttype_identifier_tok: "ttype (fst (identifier_tok lx)) \<noteq> EOL"
  using keywordTable_not_EOL
  by (auto simp: identifier_tok_def Let_def split: prod.splits option.splits)

lemma ttype_number_tok: "ttype (fst (number_tok lx)) = NUMBER"
  by (auto simp: number_tok_def Let_def split: prod.splits if_splits)

lemma ttype_string_tok: "ttype (fst (string_tok lx)) = STRING"
  by (auto simp: string_tok_def Let_def split: prod.splits if_splits)

lemma lex_step_no_EOL: "\<forall>t \<in> set (fst (lex_step lx)). ttype t \<noteq> EOL"
  by (simp add: lex_step_def ttype_identifier_tok ttype_number_tok ttype_string_tok)

lemma tokenize_loop_no_EOL:
  "\<forall>t \<in> set tokens. ttype t \<noteq> EOL \<Longrightarrow>
   \<forall>t \<in> set (tokenize_loop tokens lx). ttype t \<noteq> EOL"
proof (induction tokens lx rule: tokenize_loop_step_induct)
  case (1 tokens lx)
  then show ?case
    using lex_step_no_EOL [of lx] by (subst tokenize_loop_unfold) auto
qed

text \<open>
  No source text at all yields an \<open>EOL\<close> token: a newline satisfies \<^verbatim>\<open>std::isspace\<close>,
  so the white-space test at the head of the loop takes it and the \<^verbatim>\<open>case '\n'\<close> of
  the \<^verbatim>\<open>switch\<close> is never reached.
\<close>

lemma lex_no_EOL: "\<forall>t \<in> set (lex src). ttype t \<noteq> EOL"
  using tokenize_loop_no_EOL [of "[]" "new_Lexer src"] by (simp add: lex_def tokenize_def)

lemma cursor_ok_new_Lexer: "cursor_ok (new_Lexer src)"
  by (simp add: cursor_ok_def new_Lexer_def)

lemma cursor_ok_advance: "cursor_ok (advance lx)"
  by (simp add: cursor_ok_def advance_def Let_def)

lemma cursor_ok_scan: "cursor_ok lx \<Longrightarrow> cursor_ok (snd (scan P r lx))"
proof (induction P r lx rule: scan.induct)
  case (1 P r lx)
  show ?case
  proof (cases "currentChar lx \<noteq> NUL \<and> P (currentChar lx)")
    case True
    then have "scan P r lx = scan P (r @ [currentChar lx]) (advance lx)"
      by (subst scan.simps) simp
    with True 1 cursor_ok_advance show ?thesis by simp
  next
    case False
    then have "scan P r lx = (r, lx)" by (subst scan.simps) auto
    with 1 show ?thesis by simp
  qed
qed

text \<open>
  Every lexer state that the loop of \<^verbatim>\<open>tokenize\<close> reaches has its \<^verbatim>\<open>currentChar\<close> in step
  with its cursor.
\<close>

lemma cursor_ok_lex_step: "cursor_ok lx \<Longrightarrow> cursor_ok (snd (lex_step lx))"
  by (simp add: lex_step_def skipWhitespace_def skipComment_def identifier_tok_def
      number_tok_def string_tok_def Let_def split_beta cursor_ok_scan cursor_ok_advance
      split: option.splits)

lemma source_advance: "source (advance lx) = source lx"
  by (simp add: advance_def Let_def)

lemma position_advance: "position (advance lx) = Suc (position lx)"
  by (simp add: advance_def Let_def)

lemma scan_rest:
  assumes "cursor_ok lx"
    and "\<forall>c \<in> set (drop (position lx) (source lx)). P c \<and> c \<noteq> NUL"
  shows "fst (scan P r lx) = r @ drop (position lx) (source lx) \<and>
         currentChar (snd (scan P r lx)) = NUL"
  using assms
proof (induction P r lx rule: scan.induct)
  case (1 P r lx)
  show ?case
  proof (cases "position lx < length (source lx)")
    case True
    then have d: "drop (position lx) (source lx) =
        source lx ! position lx # drop (Suc (position lx)) (source lx)"
      by (simp add: Cons_nth_drop_Suc)
    from True "1.prems"(1) have c: "currentChar lx = source lx ! position lx"
      by (simp add: cursor_ok_def)
    from d c "1.prems"(2) have go: "currentChar lx \<noteq> NUL \<and> P (currentChar lx)"
      by simp
    have rest: "\<forall>c \<in> set (drop (position (advance lx)) (source (advance lx))). P c \<and> c \<noteq> NUL"
      using d "1.prems"(2) by (simp add: source_advance position_advance)
    have "fst (scan P (r @ [currentChar lx]) (advance lx)) =
            (r @ [currentChar lx]) @ drop (position (advance lx)) (source (advance lx)) \<and>
          currentChar (snd (scan P (r @ [currentChar lx]) (advance lx))) = NUL"
      using go cursor_ok_advance rest by (intro "1.IH") auto
    then show ?thesis
      using go d c by (subst (1 2) scan.simps) (simp add: source_advance position_advance)
  next
    case False
    with "1.prems"(1) have "currentChar lx = NUL" by (simp add: cursor_ok_def)
    with False show ?thesis by (subst (1 2) scan.simps) simp
  qed
qed

section \<open>Claims about the lexer\<close>

text \<open>
  C6. For every input byte string, \<^verbatim>\<open>tokenize\<close> terminates and returns a non-empty token
  list whose last element is an \<open>END_OF_FILE\<close> token. Termination is the totality of
  \<open>scan\<close> and \<open>tokenize_loop\<close>, both defined with a proved measure.
\<close>

theorem tokenize_ends_with_END_OF_FILE:
  "lex src \<noteq> [] \<and> ttype (last (lex src)) = END_OF_FILE"
proof -
  obtain pre l c where "tokenize_loop [] (new_Lexer src) = pre @ [Token END_OF_FILE [] l c]"
    using tokenize_loop_ends by blast
  then show ?thesis by (simp add: lex_def tokenize_def)
qed

text \<open>
  C2. The claim is that every newline of the source yields an \<open>EOL\<close> token. On the
  two-line source \<^verbatim>\<open>a\nb\<close> the lexer returns the two identifiers and the end-of-file
  token only: the newline is consumed as white space.
\<close>

theorem newline_yields_no_EOL:
  "lex (''a'' @ [NL] @ ''b'') =
    [Token IDENTIFIER ''a'' 2 1, Token IDENTIFIER ''b'' 2 2, Token END_OF_FILE [] 2 2]"
  by code_simp

text \<open>
  C5. The claim is that token positions never decrease. On the source \<^verbatim>\<open>a bcd\ne\<close> the
  identifier \<^verbatim>\<open>bcd\<close> is stamped with its start column 3 but with the line the cursor
  has reached after it, line 2, and the next token \<^verbatim>\<open>e\<close> is at line 2, column 2.
\<close>

theorem positions_decrease:
  "lex (''a bcd'' @ [NL] @ ''e'') =
     [Token IDENTIFIER ''a'' 1 1, Token IDENTIFIER ''bcd'' 2 3,
      Token IDENTIFIER ''e'' 2 2, Token END_OF_FILE [] 2 2] \<and>
   \<not> positions_nondecreasing (lex (''a bcd'' @ [NL] @ ''e''))"
  by code_simp

text \<open>
  C10, as stated, fails on a source with a NUL byte after the opening quote: the NUL is
  the lexer's end-of-input mark, so the string token holds only the bytes before it.
\<close>

theorem unterminated_string_NUL_counterexample:
  "DQUOTE \<notin> set [CHR ''a'', NUL, CHR ''b''] \<and>
   lex (DQUOTE # [CHR ''a'', NUL, CHR ''b'']) =
     [Token STRING ''a'' 1 1, Token END_OF_FILE [] 1 3] \<and>
   ''a'' \<noteq> [CHR ''a'', NUL, CHR ''b'']"
  by code_simp

text \<open>
  C10, amended. Whenever the main loop stands on a double quote and neither a double
  quote nor a NUL byte follows it in the source, the loop pushes one \<open>STRING\<close> token whose
  lexeme is the whole remainder of the source after the quote, then the \<open>END_OF_FILE\<close>
  token, and nothing else.
\<close>

theorem unterminated_string:
  assumes "cursor_ok lx" and "currentChar lx = DQUOTE"
    and "\<forall>c \<in> set (drop (Suc (position lx)) (source lx)). c \<noteq> DQUOTE \<and> c \<noteq> NUL"
  shows "tokenize_loop tokens lx =
    tokens @
    [Token STRING (drop (Suc (position lx)) (source lx)) (line (snd (string_tok lx))) (column lx),
     Token END_OF_FILE [] (line (snd (string_tok lx))) (column (snd (string_tok lx)))]"
proof -
  let ?s = "scan (\<lambda>c. c \<noteq> DQUOTE) [] (advance lx)"
  have r: "fst ?s = drop (Suc (position lx)) (source lx) \<and> currentChar (snd ?s) = NUL"
    using scan_rest [of "advance lx" "\<lambda>c. c \<noteq> DQUOTE" "[]"] assms(3) cursor_ok_advance
    by (simp add: source_advance position_advance)
  obtain res lx2 where s: "?s = (res, lx2)" by (cases ?s)
  with r have st: "string_tok lx =
      (Token STRING (drop (Suc (position lx)) (source lx)) (line (snd ?s)) (column lx), snd ?s)"
    by (simp add: string_tok_def Let_def)
  have step: "lex_step lx = ([fst (string_tok lx)], snd (string_tok lx))"
    using assms(2) by (simp add: lex_step_def isspace_def isalpha_def isdigit_def)
  have "tokenize_loop tokens lx =
      tokenize_loop (tokens @ [fst (string_tok lx)]) (snd (string_tok lx))"
    using assms(2) step by (subst tokenize_loop_unfold) simp
  also have "\<dots> = (tokens @ [fst (string_tok lx)]) @
      [Token END_OF_FILE [] (line (snd (string_tok lx))) (column (snd (string_tok lx)))]"
    using r st by (subst tokenize_loop_unfold) simp
  finally show ?thesis using st by simp
qed

theorem unterminated_string_witness:
  "cursor_ok (new_Lexer (DQUOTE # ''ab'')) \<and>
   currentChar (new_Lexer (DQUOTE # ''ab'')) = DQUOTE \<and>
   list_all (\<lambda>c. c \<noteq> DQUOTE \<and> c \<noteq> NUL)
     (drop (Suc (position (new_Lexer (DQUOTE # ''ab'')))) (source (new_Lexer (DQUOTE # ''ab'')))) \<and>
   lex (DQUOTE # ''ab'') = [Token STRING ''ab'' 1 1, Token END_OF_FILE [] 1 3]"
proof -
  let ?lx = "new_Lexer (DQUOTE # ''ab'')"
  have h1: "cursor_ok ?lx" by (rule cursor_ok_new_Lexer)
  have h2: "currentChar ?lx = DQUOTE" by (simp add: new_Lexer_def)
  have h3: "\<forall>c \<in> set (drop (Suc (position ?lx)) (source ?lx)). c \<noteq> DQUOTE \<and> c \<noteq> NUL"
    by (simp add: new_Lexer_def)
  have l: "line (snd (string_tok ?lx)) = 1" by code_simp
  have c: "column (snd (string_tok ?lx)) = 3" by code_simp
  have "lex (DQUOTE # ''ab'') = [Token STRING ''ab'' 1 1, Token END_OF_FILE [] 1 3]"
    using unterminated_string [OF h1 h2 h3, of "[]"] l c
    by (simp add: lex_def tokenize_def new_Lexer_def)
  with h1 h2 h3 show ?thesis by (simp add: list_all_iff)
qed

section \<open>Properties of the parser\<close>

text \<open>More fuel never changes a result that less fuel has already produced.\<close>

lemma fuel_le_refl [simp]: "fuel_le a a"
  by (simp add: fuel_le_def)

lemma fuel_le_None [simp]: "fuel_le None a"
  by (simp add: fuel_le_def)

lemma fuel_le_bind:
  "fuel_le m m' \<Longrightarrow> (\<And>v p. fuel_le (k v p) (k' v p)) \<Longrightarrow> fuel_le (bind m k) (bind m' k')"
  by (auto simp: fuel_le_def bind_def split: option.splits result.splits)

lemma fuel_le_if:
  "(c \<Longrightarrow> fuel_le a a') \<Longrightarrow> (\<not> c \<Longrightarrow> fuel_le b b') \<Longrightarrow>
   fuel_le (if c then a else b) (if c then a' else b')"
  by simp

lemma parseExpression_fuel_mono:
  "m \<le> n \<Longrightarrow>
   (\<forall>tokens pos. fuel_le (parseExpression m tokens pos) (parseExpression n tokens pos)) \<and>
   (\<forall>tokens left pos. fuel_le (parseExpression_loop m tokens left pos)
       (parseExpression_loop n tokens left pos)) \<and>
   (\<forall>tokens pos. fuel_le (parseTerm m tokens pos) (parseTerm n tokens pos)) \<and>
   (\<forall>tokens left pos. fuel_le (parseTerm_loop m tokens left pos)
       (parseTerm_loop n tokens left pos)) \<and>
   (\<forall>tokens pos. fuel_le (parseFactor m tokens pos) (parseFactor n tokens pos)) \<and>
   (\<forall>tokens left pos. fuel_le (parseFactor_loop m tokens left pos)
       (parseFactor_loop n tokens left pos)) \<and>
   (\<forall>tokens pos. fuel_le (parsePrimary m tokens pos) (parsePrimary n tokens pos)) \<and>
   (\<forall>tokens args pos. fuel_le (parseArguments_loop m tokens args pos)
       (parseArguments_loop n tokens args pos))"
proof (induction m arbitrary: n)
  case 0
  show ?case by simp
next
  case (Suc m)
  then obtain k where n: "n = Suc k" and le: "m \<le> k"
    by (cases n) auto
  note IH = Suc.IH [OF le]
  show ?case
    unfolding n
    apply (intro conjI allI)
           apply (simp_all only: parseExpression.simps parseExpression_loop.simps parseTerm.simps
        parseTerm_loop.simps parseFactor.simps parseFactor_loop.simps parsePrimary.simps
        parseArguments_loop.simps Let_def)
           apply (intro fuel_le_bind fuel_le_if fuel_le_refl; simp add: IH)+
    done
qed

lemma parseStatement_fuel_mono:
  "m \<le> n \<Longrightarrow>
   (\<forall>tokens pos. fuel_le (parseStatement m tokens pos) (parseStatement n tokens pos)) \<and>
   (\<forall>tokens pos. fuel_le (parseBlock m tokens pos) (parseBlock n tokens pos)) \<and>
   (\<forall>tokens statements pos. fuel_le (parseBlock_loop m tokens statements pos)
       (parseBlock_loop n tokens statements pos)) \<and>
   (\<forall>tokens pos. fuel_le (parseVariableDeclaration m tokens pos)
       (parseVariableDeclaration n tokens pos)) \<and>
   (\<forall>tokens pos. fuel_le (parseFunction m tokens pos) (parseFunction n tokens pos)) \<and>
   (\<forall>tokens pos. fuel_le (parseIfStatement m tokens pos) (parseIfStatement n tokens pos)) \<and>
   (\<forall>tokens pos. fuel_le (parseWhileLoop m tokens pos) (parseWhileLoop n tokens pos)) \<and>
   (\<forall>tokens pos. fuel_le (parsePrintStatement m tokens pos) (parsePrintStatement n tokens pos))"
proof (induction m arbitrary: n)
  case 0
  show ?case by simp
next
  case (Suc m)
  then obtain k where n: "n = Suc k" and le: "m \<le> k"
    by (cases n) auto
  note IH = Suc.IH [OF le]
  note E = parseExpression_fuel_mono [OF le]
  show ?case
    unfolding n
    apply (intro conjI allI)
           apply (simp_all only: parseStatement.simps parseBlock.simps parseBlock_loop.simps
        parseVariableDeclaration.simps parseFunction.simps parseIfStatement.simps
        parseWhileLoop.simps parsePrintStatement.simps Let_def)
           apply (intro fuel_le_bind fuel_le_if fuel_le_refl; simp add: IH E)+
    done
qed

lemma parseProgram_loop_fuel_mono:
  "m \<le> n \<Longrightarrow>
   fuel_le (parseProgram_loop m tokens statements cerr pos)
     (parseProgram_loop n tokens statements cerr pos)"
proof (induction m arbitrary: n statements cerr pos)
  case 0
  show ?case by simp
next
  case (Suc m)
  then obtain k where n: "n = Suc k" and le: "m \<le> k"
    by (cases n) auto
  have S: "fuel_le (parseStatement m tokens pos) (parseStatement k tokens pos)"
    using parseStatement_fuel_mono [OF le] by blast
  show ?case
  proof (cases "parseStatement m tokens pos")
    case None
    then show ?thesis by (simp add: n)
  next
    case (Some r)
    with S have "parseStatement k tokens pos = Some r" by (simp add: fuel_le_def)
    with Some show ?thesis
      unfolding n by (cases r) (simp_all add: Let_def Suc.IH [OF le])
  qed
qed

lemma parse_fuel_mono:
  "parse m tokens = Some r \<Longrightarrow> parse (m + k) tokens = Some r"
  using parseProgram_loop_fuel_mono [of m "m + k" tokens "[]" "[]" 0]
  by (simp add: parse_def parseProgram_def fuel_le_def)

lemma parse_deterministic:
  assumes "parse m tokens = Some r" and "parse n tokens = Some r'"
  shows "r = r'"
proof -
  have "parse (m + n) tokens = Some r" using assms(1) by (rule parse_fuel_mono)
  moreover have "parse (n + m) tokens = Some r'" using assms(2) by (rule parse_fuel_mono)
  ultimately show ?thesis by (simp add: add.commute)
qed

lemma lex_a_is_b_is_c:
  "lex ''a is b is c'' =
    [Token IDENTIFIER ''a'' 1 1, Token ASSIGN ''is'' 1 3, Token IDENTIFIER ''b'' 1 6,
     Token ASSIGN ''is'' 1 8, Token IDENTIFIER ''c'' 1 11, Token END_OF_FILE [] 1 11]"
  by code_simp

lemma parse_a_is_b_is_c:
  "parse 20 (lex ''a is b is c'') =
    Some (ProgramNode
           [BinaryOpNode Assign
             (BinaryOpNode Assign (IdentifierNode ''a'') (IdentifierNode ''b''))
             (IdentifierNode ''c'')], [], 5)"
  unfolding lex_a_is_b_is_c by code_simp

lemma lex_glue:
  "lex ''a greater than b'' =
    [Token IDENTIFIER ''a'' 1 1, Token GREATER ''greater'' 1 3, Token IDENTIFIER ''than'' 1 11,
     Token IDENTIFIER ''b'' 1 16, Token END_OF_FILE [] 1 16]"
  "lex ''a greater b'' =
    [Token IDENTIFIER ''a'' 1 1, Token GREATER ''greater'' 1 3,
     Token IDENTIFIER ''b'' 1 11, Token END_OF_FILE [] 1 11]"
  "lex ''a less than b'' =
    [Token IDENTIFIER ''a'' 1 1, Token LESS ''less'' 1 3, Token IDENTIFIER ''than'' 1 8,
     Token IDENTIFIER ''b'' 1 13, Token END_OF_FILE [] 1 13]"
  "lex ''a less b'' =
    [Token IDENTIFIER ''a'' 1 1, Token LESS ''less'' 1 3,
     Token IDENTIFIER ''b'' 1 8, Token END_OF_FILE [] 1 8]"
  "lex ''a divided by b'' =
    [Token IDENTIFIER ''a'' 1 1, Token DIVIDE ''divided'' 1 3, Token IDENTIFIER ''by'' 1 11,
     Token IDENTIFIER ''b'' 1 14, Token END_OF_FILE [] 1 14]"
  "lex ''a divided b'' =
    [Token IDENTIFIER ''a'' 1 1, Token DIVIDE ''divided'' 1 3,
     Token IDENTIFIER ''b'' 1 11, Token END_OF_FILE [] 1 11]"
  by code_simp+

lemma parse_glue:
  "parse 20 (lex ''a greater than b'') =
     Some (ProgramNode [BinaryOpNode Greater (IdentifierNode ''a'') (IdentifierNode ''b'')], [], 4)"
  "parse 20 (lex ''a greater b'') =
     Some (ProgramNode [BinaryOpNode Greater (IdentifierNode ''a'') (IdentifierNode ''b'')], [], 3)"
  "parse 20 (lex ''a less than b'') =
     Some (ProgramNode [BinaryOpNode Less (IdentifierNode ''a'') (IdentifierNode ''b'')], [], 4)"
  "parse 20 (lex ''a less b'') =
     Some (ProgramNode [BinaryOpNode Less (IdentifierNode ''a'') (IdentifierNode ''b'')], [], 3)"
  "parse 20 (lex ''a divided by b'') =
     Some (ProgramNode [BinaryOpNode Divide (IdentifierNode ''a'') (IdentifierNode ''b'')], [], 4)"
  "parse 20 (lex ''a divided b'') =
     Some (ProgramNode [BinaryOpNode Divide (IdentifierNode ''a'') (IdentifierNode ''b'')], [], 3)"
  unfolding lex_glue by code_simp+

lemma lex_recovery_input:
  "lex (''var x is'' @ [NL] @ ''print 1'') =
    [Token VARIABLE ''var'' 1 1, Token IDENTIFIER ''x'' 1 5, Token ASSIGN ''is'' 2 7,
     Token PRINT ''print'' 2 2, Token NUMBER ''1'' 2 8, Token END_OF_FILE [] 2 8]"
  by code_simp

lemma parse_recovery_input:
  "parse 20 (lex (''var x is'' @ [NL] @ ''print 1'')) =
    Some (ProgramNode [], [ParserError 2 2 ''Unexpected token: print''], 5)"
  unfolding lex_recovery_input by code_simp

lemma parse_recovers_at_EOL_token:
  "parse (20 + k)
     [Token VARIABLE ''var'' 1 1, Token IDENTIFIER ''x'' 1 5, Token ASSIGN ''is'' 1 7,
      Token EOL [NL] 1 9, Token PRINT ''print'' 2 1, Token NUMBER ''1'' 2 7,
      Token END_OF_FILE [] 2 7] =
    Some (ProgramNode [PrintNode (NumberNode 1)],
          [ParserError 1 9 (''Unexpected token: '' @ [NL])], 6)"
proof -
  have "parse 20
     [Token VARIABLE ''var'' 1 1, Token IDENTIFIER ''x'' 1 5, Token ASSIGN ''is'' 1 7,
      Token EOL [NL] 1 9, Token PRINT ''print'' 2 1, Token NUMBER ''1'' 2 7,
      Token END_OF_FILE [] 2 7] =
    Some (ProgramNode [PrintNode (NumberNode 1)],
          [ParserError 1 9 (''Unexpected token: '' @ [NL])], 6)"
    by code_simp
  then show ?thesis by (rule parse_fuel_mono)
qed

lemma lex_scenario_1:
  "lex (''var x is 40 plus 2'' @ [NL] @ ''print x'') =
    [Token VARIABLE ''var'' 1 1, Token IDENTIFIER ''x'' 1 5, Token ASSIGN ''is'' 1 7,
     Token NUMBER ''40'' 1 10, Token PLUS ''plus'' 1 13, Token NUMBER ''2'' 2 18,
     Token PRINT ''print'' 2 2, Token IDENTIFIER ''x'' 2 8, Token END_OF_FILE [] 2 8]"
  by code_simp

lemma parse_scenario_1:
  "parse 20 (lex (''var x is 40 plus 2'' @ [NL] @ ''print x'')) =
    Some (ProgramNode
           [VariableDeclarationNode ''x'' False (BinaryOpNode Add (NumberNode 40) (NumberNode 2)),
            PrintNode (IdentifierNode ''x'')], [], 8)"
  unfolding lex_scenario_1 by code_simp

section \<open>Claims about the parser\<close>

text \<open>
  C4, as stated, fails: for no amount of fuel does parsing \<^verbatim>\<open>a is b is c\<close> yield the
  right-leaning tree \<open>Assign(a, Assign(b, c))\<close>.
\<close>

theorem assignment_chain_not_right_leaning:
  "\<not> (\<exists>fuel cerr pos. parse fuel (lex ''a is b is c'') =
      Some (ProgramNode
             [BinaryOpNode Assign (IdentifierNode ''a'')
               (BinaryOpNode Assign (IdentifierNode ''b'') (IdentifierNode ''c''))], cerr, pos))"
proof
  assume "\<exists>fuel cerr pos. parse fuel (lex ''a is b is c'') =
      Some (ProgramNode
             [BinaryOpNode Assign (IdentifierNode ''a'')
               (BinaryOpNode Assign (IdentifierNode ''b'') (IdentifierNode ''c''))], cerr, pos)"
  then obtain fuel cerr pos where "parse fuel (lex ''a is b is c'') =
      Some (ProgramNode
             [BinaryOpNode Assign (IdentifierNode ''a'')
               (BinaryOpNode Assign (IdentifierNode ''b'') (IdentifierNode ''c''))], cerr, pos)"
    by blast
  from parse_deterministic [OF this parse_a_is_b_is_c] show False by simp
qed

text \<open>
  C4, amended. Parsing \<^verbatim>\<open>a is b is c\<close> yields \<open>Assign(Assign(a, b), c)\<close>: the loop of
  \<^verbatim>\<open>parseExpression\<close> folds to the left, so the outer node's left child is the assignment
  of \<open>b\<close> to \<open>a\<close> and its right child is the identifier \<open>c\<close>. No diagnostic is written
  and the cursor ends on the end-of-file token.
\<close>

theorem assignment_chain_left_leaning:
  "parse (20 + k) (lex ''a is b is c'') =
    Some (ProgramNode
           [BinaryOpNode Assign
             (BinaryOpNode Assign (IdentifierNode ''a'') (IdentifierNode ''b''))
             (IdentifierNode ''c'')], [], 5)"
  using parse_a_is_b_is_c by (rule parse_fuel_mono)

text \<open>
  C8. \<^verbatim>\<open>a greater than b\<close> and \<^verbatim>\<open>a greater b\<close> both parse to \<open>Greater(a, b)\<close>,
  \<^verbatim>\<open>a less than b\<close> and \<^verbatim>\<open>a less b\<close> both to \<open>Less(a, b)\<close>, and \<^verbatim>\<open>a divided by b\<close> and
  \<^verbatim>\<open>a divided b\<close> both to \<open>Divide(a, b)\<close>: the glue words change the final cursor only.
\<close>

theorem glue_words_absorbed:
  "parse (20 + k) (lex ''a greater than b'') =
     Some (ProgramNode [BinaryOpNode Greater (IdentifierNode ''a'') (IdentifierNode ''b'')], [], 4) \<and>
   parse (20 + k) (lex ''a greater b'') =
     Some (ProgramNode [BinaryOpNode Greater (IdentifierNode ''a'') (IdentifierNode ''b'')], [], 3) \<and>
   parse (20 + k) (lex ''a less than b'') =
     Some (ProgramNode [BinaryOpNode Less (IdentifierNode ''a'') (IdentifierNode ''b'')], [], 4) \<and>
   parse (20 + k) (lex ''a less b'') =
     Some (ProgramNode [BinaryOpNode Less (IdentifierNode ''a'') (IdentifierNode ''b'')], [], 3) \<and>
   parse (20 + k) (lex ''a divided by b'') =
     Some (ProgramNode [BinaryOpNode Divide (IdentifierNode ''a'') (IdentifierNode ''b'')], [], 4) \<and>
   parse (20 + k) (lex ''a divided b'') =
     Some (ProgramNode [BinaryOpNode Divide (IdentifierNode ''a'') (IdentifierNode ''b'')], [], 3)"
  by (intro conjI parse_fuel_mono parse_glue)

text \<open>
  C3. The claim is that after a line that fails to parse, a well-formed statement on the
  next line is parsed and kept. On the source \<^verbatim>\<open>var x is\nprint 1\<close> the parser reports
  one diagnostic and returns an empty program: the token list holds no \<open>EOL\<close>, so the
  recovery loop runs to the end of the file and drops \<^verbatim>\<open>print 1\<close>. (On a token list that
  does hold an \<open>EOL\<close> token the same loop stops there and the next statement is kept:
  \<open>parse_recovers_at_EOL_token\<close>.)
\<close>

theorem recovery_loses_next_line:
  "parse (20 + k) (lex (''var x is'' @ [NL] @ ''print 1'')) =
    Some (ProgramNode [], [ParserError 2 2 ''Unexpected token: print''], 5)"
  using parse_recovery_input by (rule parse_fuel_mono)

section \<open>Properties of the code generator\<close>

lemma bindE_Inr: "bindE m k = Inr b \<Longrightarrow> \<exists>a. m = Inr a \<and> k a = Inr b"
  by (cases m) (simp_all add: bindE_def)

lemma bindE_simps: "bindE (Inr a) k = k a" "bindE (Inl e) k = Inl e"
  by (simp_all add: bindE_def)

lemma instructions_Insert:
  "instructions (snd (Insert i ty g)) = instructions g @ [Placed (insertBlock g) False i]"
  by (simp add: Insert_def)

lemma fst_Insert: "fst (Insert i ty g) = Instruction (length (instructions g)) ty"
  by (simp add: Insert_def)

lemma insertBlock_Insert: "insertBlock (snd (Insert i ty g)) = insertBlock g"
  by (simp add: Insert_def)

lemma instructions_BasicBlock_Create:
  "instructions (snd (BasicBlock_Create name parent g)) = instructions g"
  by (simp add: BasicBlock_Create_def Let_def split: option.splits)

lemma insertBlock_BasicBlock_Create:
  "insertBlock (snd (BasicBlock_Create name parent g)) = insertBlock g"
  by (simp add: BasicBlock_Create_def Let_def split: option.splits)

lemma instructions_insertInto:
  "insertInto b parent g = Inr g' \<Longrightarrow> instructions g' = instructions g"
  by (auto simp: insertInto_def split: option.splits)

lemma prefix_branchUnlessTerminated:
  "branchUnlessTerminated target g = Inr g' \<Longrightarrow> prefix (instructions g) (instructions g')"
  by (auto simp: branchUnlessTerminated_def instructions_Insert split: option.splits if_splits)

lemma instructions_namedValues_index:
  "instructions (snd (namedValues_index name g)) = instructions g"
  by (simp add: namedValues_index_def split: option.splits)

lemma prefix_generateBinaryOp:
  "prefix (instructions g) (instructions (snd (generateBinaryOp operation leftNode l r g)))"
  by (auto simp: generateBinaryOp_def arithmetic_def comparison_def report_def Insert_def
      namedValues_index_def
      split: option.splits Op.splits ASTNode.splits prod.splits)

lemma prefix_storeArguments:
  "prefix (instructions g) (instructions (storeArguments f ps idx g))"
proof (induction ps arbitrary: idx g)
  case Nil
  show ?case by simp
next
  case (Cons p ps)
  have "prefix (instructions g)
      (instructions ((snd (Insert (Store (Some (Argument f idx)) (fst (Insert (Alloca p) PointerTy g))) VoidTy
         (snd (Insert (Alloca p) PointerTy g))))
         \<lparr>namedValues := (namedValues (snd (Insert (Store (Some (Argument f idx)) (fst (Insert (Alloca p) PointerTy g))) VoidTy
         (snd (Insert (Alloca p) PointerTy g)))))(p \<mapsto> Some (fst (Insert (Alloca p) PointerTy g)))\<rparr>))"
    by (simp add: Insert_def)
  then show ?case
    using Cons [of "(snd (Insert (Store (Some (Argument f idx)) (fst (Insert (Alloca p) PointerTy g))) VoidTy
         (snd (Insert (Alloca p) PointerTy g))))
         \<lparr>namedValues := (namedValues (snd (Insert (Store (Some (Argument f idx)) (fst (Insert (Alloca p) PointerTy g))) VoidTy
         (snd (Insert (Alloca p) PointerTy g)))))(p \<mapsto> Some (fst (Insert (Alloca p) PointerTy g)))\<rparr>" "idx + 1"]
    by (simp add: Let_def split_beta)
qed

lemma prefix_coerceCondition:
  "prefix (instructions g) (instructions (snd (coerceCondition name cv g)))"
  by (simp add: coerceCondition_def Insert_def)


lemma visit_If_steps:
  assumes "visit (IfNode condition thenBlock elseBlock) g = Inr g'"
  shows "\<exists>g1 cv thenBB elseBB mergeBB parent g6 g7 g8 g9 g10 g11 g12.
    visit condition g = Inr g1 \<and> currentValue g1 = Some cv \<and>
    instructions g6 = instructions g1 @ conditionCode ''ifcond'' cv g1 thenBB elseBB \<and>
    visit thenBlock g6 = Inr g7 \<and>
    branchUnlessTerminated mergeBB g7 = Inr g8 \<and>
    insertInto elseBB parent g8 = Inr g9 \<and>
    visit_optional elseBlock (g9\<lparr>insertBlock := Some elseBB\<rparr>) = Inr g10 \<and>
    branchUnlessTerminated mergeBB g10 = Inr g11 \<and>
    insertInto mergeBB parent g11 = Inr g12 \<and>
    g' = g12\<lparr>insertBlock := Some mergeBB\<rparr>"
proof -
  from assms obtain g1 where c: "visit condition g = Inr g1"
    by (auto dest!: bindE_Inr)
  from assms c obtain cv where cv: "currentValue g1 = Some cv"
    by (cases "currentValue g1") (auto simp: bindE_simps)
  define condValue where "condValue = fst (coerceCondition ''ifcond'' cv g1)"
  define g2 where "g2 = snd (coerceCondition ''ifcond'' cv g1)"
  from assms c cv obtain bb where bb: "insertBlock g2 = Some bb"
    by (cases "insertBlock g2") (auto simp: bindE_simps g2_def split_beta Let_def)
  define parent where "parent = getParent bb g2"
  define thenBB where "thenBB = fst (BasicBlock_Create ''then'' parent g2)"
  define g3 where "g3 = snd (BasicBlock_Create ''then'' parent g2)"
  define elseBB where "elseBB = fst (BasicBlock_Create ''else'' None g3)"
  define g4 where "g4 = snd (BasicBlock_Create ''else'' None g3)"
  define mergeBB where "mergeBB = fst (BasicBlock_Create ''ifcont'' None g4)"
  define g5 where "g5 = snd (BasicBlock_Create ''ifcont'' None g4)"
  define g6 where "g6 = (snd (Insert (CondBr condValue thenBB elseBB) VoidTy g5))\<lparr>insertBlock := Some thenBB\<rparr>"
  from assms c cv bb have r2: "bindE (visit thenBlock g6) (\<lambda>g7.
                   bindE (branchUnlessTerminated mergeBB g7) (\<lambda>g8.
                   bindE (insertInto elseBB parent g8) (\<lambda>g9.
                   bindE (visit_optional elseBlock (g9\<lparr>insertBlock := Some elseBB\<rparr>)) (\<lambda>g10.
                   bindE (branchUnlessTerminated mergeBB g10) (\<lambda>g11.
                   bindE (insertInto mergeBB parent g11) (\<lambda>g12.
                     Inr (g12\<lparr>insertBlock := Some mergeBB\<rparr>))))))) = Inr g'"
    by (simp add: bindE_simps split_beta Let_def g2_def [symmetric] condValue_def [symmetric]
        parent_def [symmetric] thenBB_def [symmetric] g3_def [symmetric]
        elseBB_def [symmetric] g4_def [symmetric] mergeBB_def [symmetric] g5_def [symmetric]
        g6_def [symmetric])
  then obtain g7 g8 g9 g10 g11 g12 where steps:
    "visit thenBlock g6 = Inr g7"
    "branchUnlessTerminated mergeBB g7 = Inr g8"
    "insertInto elseBB parent g8 = Inr g9"
    "visit_optional elseBlock (g9\<lparr>insertBlock := Some elseBB\<rparr>) = Inr g10"
    "branchUnlessTerminated mergeBB g10 = Inr g11"
    "insertInto mergeBB parent g11 = Inr g12"
    "g' = g12\<lparr>insertBlock := Some mergeBB\<rparr>"
    by (auto dest!: bindE_Inr)
  have ib: "insertBlock g5 = insertBlock g2"
    by (simp add: g5_def g4_def g3_def insertBlock_BasicBlock_Create)
  have i5: "instructions g5 = instructions g2"
    by (simp add: g5_def g4_def g3_def instructions_BasicBlock_Create)
  have "instructions g6 = instructions g1 @ conditionCode ''ifcond'' cv g1 thenBB elseBB"
    by (simp add: g6_def instructions_Insert i5 ib g2_def condValue_def coerceCondition_def
        conditionCode_def Insert_def)
  with c cv steps show ?thesis by blast
qed

lemma visit_While_steps:
  assumes "visit (WhileNode condition body) g = Inr g'"
  shows "\<exists>bb condBB loopBB afterBB parent g4 g5 cv g7 g8 g9 g10 g11.
    insertBlock g = Some bb \<and>
    instructions g4 = instructions g @ [Placed (Some bb) False (Br condBB)] \<and>
    visit condition g4 = Inr g5 \<and> currentValue g5 = Some cv \<and>
    instructions g7 = instructions g5 @ conditionCode ''loopcond'' cv g5 loopBB afterBB \<and>
    insertInto loopBB parent g7 = Inr g8 \<and>
    visit body (g8\<lparr>insertBlock := Some loopBB\<rparr>) = Inr g9 \<and>
    branchUnlessTerminated condBB g9 = Inr g10 \<and>
    insertInto afterBB parent g10 = Inr g11 \<and>
    g' = g11\<lparr>insertBlock := Some afterBB\<rparr>"
proof -
  from assms obtain bb where bb: "insertBlock g = Some bb"
    by (cases "insertBlock g") auto
  define parent where "parent = getParent bb g"
  define condBB where "condBB = fst (BasicBlock_Create ''loopcond'' parent g)"
  define g1 where "g1 = snd (BasicBlock_Create ''loopcond'' parent g)"
  define loopBB where "loopBB = fst (BasicBlock_Create ''loop'' None g1)"
  define g2 where "g2 = snd (BasicBlock_Create ''loop'' None g1)"
  define afterBB where "afterBB = fst (BasicBlock_Create ''afterloop'' None g2)"
  define g3 where "g3 = snd (BasicBlock_Create ''afterloop'' None g2)"
  define g4 where "g4 = (snd (Insert (Br condBB) VoidTy g3))\<lparr>insertBlock := Some condBB\<rparr>"
  note folds = parent_def [symmetric] condBB_def [symmetric]
        g1_def [symmetric] loopBB_def [symmetric] g2_def [symmetric] afterBB_def [symmetric]
        g3_def [symmetric] g4_def [symmetric]
  from assms bb obtain g5 where c: "visit condition g4 = Inr g5"
    by (auto simp: split_beta Let_def folds dest!: bindE_Inr)
  from assms bb c obtain cv where cv: "currentValue g5 = Some cv"
    by (cases "currentValue g5") (auto simp: split_beta Let_def folds bindE_simps)
  define g7 where "g7 = snd (Insert (CondBr (fst (coerceCondition ''loopcond'' cv g5)) loopBB afterBB)
                               VoidTy (snd (coerceCondition ''loopcond'' cv g5)))"
  from assms bb c cv obtain g8 g9 g10 g11 where steps:
    "insertInto loopBB parent g7 = Inr g8"
    "visit body (g8\<lparr>insertBlock := Some loopBB\<rparr>) = Inr g9"
    "branchUnlessTerminated condBB g9 = Inr g10"
    "insertInto afterBB parent g10 = Inr g11"
    "g' = g11\<lparr>insertBlock := Some afterBB\<rparr>"
    by (auto simp: bindE_simps split_beta Let_def folds g7_def [symmetric] dest!: bindE_Inr)
  have i4: "instructions g4 = instructions g @ [Placed (Some bb) False (Br condBB)]"
    by (simp add: g4_def instructions_Insert g3_def g2_def g1_def
        instructions_BasicBlock_Create insertBlock_BasicBlock_Create bb)
  have i7: "instructions g7 = instructions g5 @ conditionCode ''loopcond'' cv g5 loopBB afterBB"
    by (simp add: g7_def coerceCondition_def conditionCode_def Insert_def)
  from bb i4 c cv i7 steps show ?thesis by blast
qed

lemma visit_Function_steps:
  assumes "visit (FunctionNode name parameters body) g = Inr g'"
  shows "\<exists>g5 g6. prefix (instructions g) (instructions g5) \<and> visit body g5 = Inr g6 \<and>
    prefix (instructions g6) (instructions g')"
proof -
  define f where "f = length (moduleFunctions g)"
  define g2 where "g2 = snd (BasicBlock_Create ''entry'' (Some f)
      (g\<lparr>moduleFunctions := moduleFunctions g @
            [\<lparr>fname = name, fparams = parameters, freturn = DoubleTy, fblocks = []\<rparr>]\<rparr>))"
  define entryBB where "entryBB = fst (BasicBlock_Create ''entry'' (Some f)
      (g\<lparr>moduleFunctions := moduleFunctions g @
            [\<lparr>fname = name, fparams = parameters, freturn = DoubleTy, fblocks = []\<rparr>]\<rparr>))"
  define g5 where "g5 = storeArguments f parameters 0
      (g2\<lparr>insertBlock := Some entryBB, namedValues := Map.empty\<rparr>)"
  from assms obtain g6 where b: "visit body g5 = Inr g6"
    and p2: "prefix (instructions g6) (instructions g')"
    by (auto simp: Let_def split_beta f_def [symmetric] g2_def [symmetric]
        entryBB_def [symmetric] g5_def [symmetric] instructions_Insert
        split: option.splits if_splits dest!: bindE_Inr)
  have "instructions (g2\<lparr>insertBlock := Some entryBB, namedValues := Map.empty\<rparr>) = instructions g"
    by (simp add: g2_def instructions_BasicBlock_Create)
  then have p1: "prefix (instructions g) (instructions g5)"
    using prefix_storeArguments [of "g2\<lparr>insertBlock := Some entryBB, namedValues := Map.empty\<rparr>"
        f parameters 0]
    by (simp add: g5_def)
  from p1 b p2 show ?thesis by blast
qed

lemma visit_statements_prefix:
  "(\<And>x g g'. x \<in> set ns \<Longrightarrow> visit x g = Inr g' \<Longrightarrow>
      prefix (instructions g) (instructions g')) \<Longrightarrow>
   visit_statements ns g = Inr g' \<Longrightarrow> prefix (instructions g) (instructions g')"
proof (induction ns arbitrary: g)
  case Nil
  then show ?case by simp
next
  case (Cons n ns)
  from Cons.prems(2) obtain g1 where a: "visit n g = Inr g1"
    and b: "visit_statements ns g1 = Inr g'"
    by (auto dest!: bindE_Inr)
  have "prefix (instructions g) (instructions g1)"
    using Cons.prems(1) [of n g g1] a by simp
  moreover have "prefix (instructions g1) (instructions g')"
  proof (rule Cons.IH [OF _ b])
    fix x h h'
    assume "x \<in> set ns" "visit x h = Inr h'"
    then show "prefix (instructions h) (instructions h')"
      using Cons.prems(1) [of x h h'] by simp
  qed
  ultimately show ?case by (rule prefix_order.trans)
qed

lemma visit_arguments_prefix:
  "(\<And>x g g'. x \<in> set ns \<Longrightarrow> visit x g = Inr g' \<Longrightarrow>
      prefix (instructions g) (instructions g')) \<Longrightarrow>
   visit_arguments ns vs g = Inr (vs', g') \<Longrightarrow> prefix (instructions g) (instructions g')"
proof (induction ns arbitrary: g vs)
  case Nil
  then show ?case by simp
next
  case (Cons n ns)
  from Cons.prems(2) obtain g1 where a: "visit n g = Inr g1"
    and b: "visit_arguments ns (vs @ [currentValue g1]) g1 = Inr (vs', g')"
    by (auto dest!: bindE_Inr)
  have "prefix (instructions g) (instructions g1)"
    using Cons.prems(1) [of n g g1] a by simp
  moreover have "prefix (instructions g1) (instructions g')"
  proof (rule Cons.IH [OF _ b])
    fix x h h'
    assume "x \<in> set ns" "visit x h = Inr h'"
    then show "prefix (instructions h) (instructions h')"
      using Cons.prems(1) [of x h h'] by simp
  qed
  ultimately show ?case by (rule prefix_order.trans)
qed

lemma visit_prefix:
  "visit n g = Inr g' \<Longrightarrow> prefix (instructions g) (instructions g')"
proof (induction n arbitrary: g g')
  case (ProgramNode stmts)
  then show ?case using visit_statements_prefix [of stmts g g'] by auto
next
  case (BlockNode stmts)
  then show ?case using visit_statements_prefix [of stmts g g'] by auto
next
  case (VariableDeclarationNode name isConstant initialValue)
  from VariableDeclarationNode.prems obtain g1 where a: "visit initialValue g = Inr g1"
    and b: "prefix (instructions g1) (instructions g')"
    by (auto simp: Let_def Insert_def InsertAtBegin_def
        split: option.splits list.splits dest!: bindE_Inr)
  from VariableDeclarationNode.IH [OF a] b show ?case by (rule prefix_order.trans)
next
  case (BinaryOpNode operation leftNode rightNode)
  from BinaryOpNode.prems obtain g1 g2 where v1: "visit leftNode g = Inr g1"
    and v2: "visit rightNode g1 = Inr g2"
    and r: "g' = (snd (generateBinaryOp operation leftNode (currentValue g1) (currentValue g2) g2))
              \<lparr>currentValue := fst (generateBinaryOp operation leftNode (currentValue g1) (currentValue g2) g2)\<rparr>"
    by (auto simp: split_beta dest!: bindE_Inr)
  have "prefix (instructions g2) (instructions g')"
    using prefix_generateBinaryOp [of g2] by (simp add: r)
  with BinaryOpNode.IH(1) [OF v1] BinaryOpNode.IH(2) [OF v2] show ?case
    by (meson prefix_order.trans)
next
  case (NumberNode v)
  then show ?case by auto
next
  case (StringNode v)
  then show ?case by (auto split: option.splits)
next
  case (IdentifierNode name)
  then show ?case
    by (auto simp: Let_def Insert_def namedValues_index_def report_def
        split: option.splits prod.splits)
next
  case (FunctionNode name parameters body)
  from visit_Function_steps [OF FunctionNode.prems] obtain g5 g6 where
    "prefix (instructions g) (instructions g5)" "visit body g5 = Inr g6"
    "prefix (instructions g6) (instructions g')" by blast
  with FunctionNode.IH [of g5 g6] show ?case by (meson prefix_order.trans)
next
  case (CallNode callee arguments)
  show ?case
  proof (cases "\<exists>vs g1. visit_arguments arguments [] g = Inr (vs, g1) \<and>
      prefix (instructions g1) (instructions g')")
    case True
    then obtain vs g1 where a: "visit_arguments arguments [] g = Inr (vs, g1)"
      and b: "prefix (instructions g1) (instructions g')" by blast
    have "prefix (instructions g) (instructions g1)"
      using visit_arguments_prefix [OF _ a] CallNode.IH by blast
    with b show ?thesis by (meson prefix_order.trans)
  next
    case False
    with CallNode.prems show ?thesis
      by (auto simp: Let_def Insert_def report_def
          split: option.splits prod.splits if_splits dest!: bindE_Inr)
  qed
next
  case (IfNode condition thenBlock elseBlock)
  from visit_If_steps [OF IfNode.prems] obtain g1 cv thenBB elseBB mergeBB parent
    g6 g7 g8 g9 g10 g11 g12 where s:
    "visit condition g = Inr g1"
    "instructions g6 = instructions g1 @ conditionCode ''ifcond'' cv g1 thenBB elseBB"
    "visit thenBlock g6 = Inr g7"
    "branchUnlessTerminated mergeBB g7 = Inr g8"
    "insertInto elseBB parent g8 = Inr g9"
    "visit_optional elseBlock (g9\<lparr>insertBlock := Some elseBB\<rparr>) = Inr g10"
    "branchUnlessTerminated mergeBB g10 = Inr g11"
    "insertInto mergeBB parent g11 = Inr g12"
    "g' = g12\<lparr>insertBlock := Some mergeBB\<rparr>"
    by blast
  have e: "prefix (instructions g9) (instructions g10)"
  proof (cases elseBlock)
    case None
    with s(6) show ?thesis by auto
  next
    case (Some n)
    with s(6) IfNode.IH(3) [of n "g9\<lparr>insertBlock := Some elseBB\<rparr>" g10] show ?thesis by simp
  qed
  have "prefix (instructions g) (instructions g1)" using IfNode.IH(1) s(1) .
  moreover have "prefix (instructions g1) (instructions g6)" using s(2) by simp
  moreover have "prefix (instructions g6) (instructions g7)" using IfNode.IH(2) s(3) .
  moreover have "prefix (instructions g7) (instructions g8)"
    using s(4) by (rule prefix_branchUnlessTerminated)
  moreover have "instructions g9 = instructions g8" using s(5) by (rule instructions_insertInto)
  moreover have "prefix (instructions g10) (instructions g11)"
    using s(7) by (rule prefix_branchUnlessTerminated)
  moreover have "instructions g' = instructions g11"
    using instructions_insertInto [OF s(8)] s(9) by simp
  ultimately show ?case using e by (metis prefix_order.trans)
next
  case (WhileNode condition body)
  from visit_While_steps [OF WhileNode.prems] obtain bb condBB loopBB afterBB parent
    g4 g5 cv g7 g8 g9 g10 g11 where s:
    "instructions g4 = instructions g @ [Placed (Some bb) False (Br condBB)]"
    "visit condition g4 = Inr g5"
    "instructions g7 = instructions g5 @ conditionCode ''loopcond'' cv g5 loopBB afterBB"
    "insertInto loopBB parent g7 = Inr g8"
    "visit body (g8\<lparr>insertBlock := Some loopBB\<rparr>) = Inr g9"
    "branchUnlessTerminated condBB g9 = Inr g10"
    "insertInto afterBB parent g10 = Inr g11"
    "g' = g11\<lparr>insertBlock := Some afterBB\<rparr>"
    by blast
  have "prefix (instructions g) (instructions g4)" using s(1) by simp
  moreover have "prefix (instructions g4) (instructions g5)" using WhileNode.IH(1) s(2) .
  moreover have "prefix (instructions g5) (instructions g7)" using s(3) by simp
  moreover have "instructions g8 = instructions g7" using s(4) by (rule instructions_insertInto)
  moreover have "prefix (instructions g8) (instructions g9)"
    using WhileNode.IH(2) [OF s(5)] by simp
  moreover have "prefix (instructions g9) (instructions g10)"
    using s(6) by (rule prefix_branchUnlessTerminated)
  moreover have "instructions g' = instructions g10"
    using instructions_insertInto [OF s(7)] s(8) by simp
  ultimately show ?case by (metis prefix_order.trans)
next
  case (PrintNode expression)
  from PrintNode.prems obtain g1 where a: "visit expression g = Inr g1"
    and b: "prefix (instructions g1) (instructions g')"
    by (auto simp: Let_def Insert_def split: option.splits if_splits dest!: bindE_Inr)
  from PrintNode.IH [OF a] b show ?case by (rule prefix_order.trans)
next
  case (ReturnNode val)
  from ReturnNode.prems obtain g1 where a: "visit val g = Inr g1"
    and b: "prefix (instructions g1) (instructions g')"
    by (auto simp: Insert_def dest!: bindE_Inr)
  from ReturnNode.IH [OF a] b show ?case by (rule prefix_order.trans)
qed

lemmas eval_defs = new_CodeGenerator_def
      declareStandardFunctions_def Let_def bindE_def BasicBlock_Create_def Insert_def
      InsertAtBegin_def namedValues_index_def getParent_def appendBlock_def
      getTerminator_def blockInstrs_def split_beta insertInto_def branchUnlessTerminated_def
      coerceCondition_def generateBinaryOp_def arithmetic_def comparison_def getFunction_def
      report_def generate_def

lemma visit_optional_prefix:
  "visit_optional e g = Inr g' \<Longrightarrow> prefix (instructions g) (instructions g')"
  by (cases e) (auto simp: visit_prefix)

lemma generate_top_level:
  "generate (ProgramNode
      [VariableDeclarationNode ''x'' False (BinaryOpNode Add (NumberNode 40) (NumberNode 2)),
       PrintNode (IdentifierNode ''x'')]) new_CodeGenerator = Inl NullDereference"
  by (simp add: eval_defs)

lemma conditionCode_example:
  "conditionCode ''ifcond'' (ConstantFP 1) exampleBuilder 1 2 =
     [Placed (Some 0) False (BinaryOperator FCmpONE (ConstantFP 1) (ConstantFP 0) ''ifcond''),
      Placed (Some 0) False (CondBr (Instruction 0 Int1Ty) 1 2)]"
  "conditionCode ''ifcond'' (Instruction 7 Int1Ty) exampleBuilder 1 2 =
     [Placed (Some 0) False (CondBr (Instruction 7 Int1Ty) 1 2)]"
  by (simp_all add: conditionCode_def exampleBuilder_def new_CodeGenerator_def)

subsection \<open>The scope a function body is visited in\<close>




lemma length_instructions_storeArguments:
  "length (instructions g) \<le> length (instructions (storeArguments f ps idx g))"
  using prefix_storeArguments [of g f ps idx] by (rule prefix_length_le)





section \<open>Claims about the code generator\<close>



text \<open>
  C7. When the visit of an If or While node returns, the instructions created since the
  condition was evaluated start with \<open>conditionCode\<close>: for a condition that is not a
  1-bit integer, exactly one comparison of the condition with \<open>0.0\<close> (\<open>FCmpONE\<close>),
  followed at once by the conditional branch on the result of that comparison; for a
  condition that is already a 1-bit integer, the conditional branch on the condition
  itself and no comparison. For While the condition is evaluated after the branch to the
  condition block.
\<close>

theorem condition_coerced_once:
  "(visit (IfNode condition thenBlock elseBlock) g = Inr g' \<longrightarrow>
     (\<exists>g1 cv thenBB elseBB rest.
        visit condition g = Inr g1 \<and> currentValue g1 = Some cv \<and>
        instructions g' =
          instructions g1 @ conditionCode ''ifcond'' cv g1 thenBB elseBB @ rest)) \<and>
   (visit (WhileNode condition body) g = Inr g' \<longrightarrow>
     (\<exists>bb condBB g4 g5 cv loopBB afterBB rest.
        insertBlock g = Some bb \<and>
        instructions g4 = instructions g @ [Placed (Some bb) False (Br condBB)] \<and>
        visit condition g4 = Inr g5 \<and> currentValue g5 = Some cv \<and>
        instructions g' =
          instructions g5 @ conditionCode ''loopcond'' cv g5 loopBB afterBB @ rest))"
proof (intro conjI impI)
  assume "visit (IfNode condition thenBlock elseBlock) g = Inr g'"
  from visit_If_steps [OF this] obtain g1 cv thenBB elseBB mergeBB parent
    g6 g7 g8 g9 g10 g11 g12 where s:
    "visit condition g = Inr g1" "currentValue g1 = Some cv"
    "instructions g6 = instructions g1 @ conditionCode ''ifcond'' cv g1 thenBB elseBB"
    "visit thenBlock g6 = Inr g7"
    "branchUnlessTerminated mergeBB g7 = Inr g8"
    "insertInto elseBB parent g8 = Inr g9"
    "visit_optional elseBlock (g9\<lparr>insertBlock := Some elseBB\<rparr>) = Inr g10"
    "branchUnlessTerminated mergeBB g10 = Inr g11"
    "insertInto mergeBB parent g11 = Inr g12"
    "g' = g12\<lparr>insertBlock := Some mergeBB\<rparr>"
    by blast
  have "prefix (instructions g6) (instructions g7)" using s(4) by (rule visit_prefix)
  moreover have "prefix (instructions g7) (instructions g8)"
    using s(5) by (rule prefix_branchUnlessTerminated)
  moreover have "instructions g9 = instructions g8" using s(6) by (rule instructions_insertInto)
  moreover have "prefix (instructions g9) (instructions g10)"
    using visit_optional_prefix [OF s(7)] by simp
  moreover have "prefix (instructions g10) (instructions g11)"
    using s(8) by (rule prefix_branchUnlessTerminated)
  moreover have "instructions g' = instructions g11"
    using instructions_insertInto [OF s(9)] s(10) by simp
  ultimately have "prefix (instructions g6) (instructions g')"
    by (metis prefix_order.trans)
  then obtain rest where "instructions g' = instructions g6 @ rest"
    by (auto simp: prefix_def)
  with s(3) have "instructions g' =
      instructions g1 @ conditionCode ''ifcond'' cv g1 thenBB elseBB @ rest"
    by simp
  with s(1,2) show "\<exists>g1 cv thenBB elseBB rest.
        visit condition g = Inr g1 \<and> currentValue g1 = Some cv \<and>
        instructions g' =
          instructions g1 @ conditionCode ''ifcond'' cv g1 thenBB elseBB @ rest"
    by blast
next
  assume "visit (WhileNode condition body) g = Inr g'"
  from visit_While_steps [OF this] obtain bb condBB loopBB afterBB parent
    g4 g5 cv g7 g8 g9 g10 g11 where s:
    "insertBlock g = Some bb"
    "instructions g4 = instructions g @ [Placed (Some bb) False (Br condBB)]"
    "visit condition g4 = Inr g5" "currentValue g5 = Some cv"
    "instructions g7 = instructions g5 @ conditionCode ''loopcond'' cv g5 loopBB afterBB"
    "insertInto loopBB parent g7 = Inr g8"
    "visit body (g8\<lparr>insertBlock := Some loopBB\<rparr>) = Inr g9"
    "branchUnlessTerminated condBB g9 = Inr g10"
    "insertInto afterBB parent g10 = Inr g11"
    "g' = g11\<lparr>insertBlock := Some afterBB\<rparr>"
    by blast
  have "instructions g8 = instructions g7" using s(6) by (rule instructions_insertInto)
  moreover have "prefix (instructions g8) (instructions g9)"
    using visit_prefix [OF s(7)] by simp
  moreover have "prefix (instructions g9) (instructions g10)"
    using s(8) by (rule prefix_branchUnlessTerminated)
  moreover have "instructions g' = instructions g10"
    using instructions_insertInto [OF s(9)] s(10) by simp
  ultimately have "prefix (instructions g7) (instructions g')"
    by (metis prefix_order.trans)
  then obtain rest where "instructions g' = instructions g7 @ rest"
    by (auto simp: prefix_def)
  with s(5) have "instructions g' =
      instructions g5 @ conditionCode ''loopcond'' cv g5 loopBB afterBB @ rest"
    by simp
  with s(1,2,3,4) show "\<exists>bb condBB g4 g5 cv loopBB afterBB rest.
        insertBlock g = Some bb \<and>
        instructions g4 = instructions g @ [Placed (Some bb) False (Br condBB)] \<and>
        visit condition g4 = Inr g5 \<and> currentValue g5 = Some cv \<and>
        instructions g' =
          instructions g5 @ conditionCode ''loopcond'' cv g5 loopBB afterBB @ rest"
    by blast
qed

theorem condition_coerced_once_witness:
  "(\<exists>g'. visit (IfNode (NumberNode 1) (BlockNode []) None) exampleBuilder = Inr g' \<and>
      (\<exists>g1 cv thenBB elseBB rest.
        visit (NumberNode 1) exampleBuilder = Inr g1 \<and> currentValue g1 = Some cv \<and>
        instructions g' =
          instructions g1 @ conditionCode ''ifcond'' cv g1 thenBB elseBB @ rest)) \<and>
   (\<exists>g'. visit (WhileNode (BinaryOpNode Less (NumberNode 1) (NumberNode 2)) (BlockNode []))
           exampleBuilder = Inr g' \<and>
      (\<exists>bb condBB g4 g5 cv loopBB afterBB rest.
        insertBlock exampleBuilder = Some bb \<and>
        instructions g4 = instructions exampleBuilder @ [Placed (Some bb) False (Br condBB)] \<and>
        visit (BinaryOpNode Less (NumberNode 1) (NumberNode 2)) g4 = Inr g5 \<and>
        currentValue g5 = Some cv \<and>
        instructions g' =
          instructions g5 @ conditionCode ''loopcond'' cv g5 loopBB afterBB @ rest))"
proof -
  have "\<exists>g'. visit (IfNode (NumberNode 1) (BlockNode []) None) exampleBuilder = Inr g'"
    by (simp add: exampleBuilder_def eval_defs)
  then obtain g' where h1: "visit (IfNode (NumberNode 1) (BlockNode []) None) exampleBuilder = Inr g'" ..
  have "\<exists>g'. visit (WhileNode (BinaryOpNode Less (NumberNode 1) (NumberNode 2)) (BlockNode []))
           exampleBuilder = Inr g'"
    by (simp add: exampleBuilder_def eval_defs)
  then obtain g'' where h2: "visit (WhileNode (BinaryOpNode Less (NumberNode 1) (NumberNode 2))
      (BlockNode [])) exampleBuilder = Inr g''" ..
  note a = condition_coerced_once [THEN conjunct1, rule_format, OF h1]
  note b = condition_coerced_once [THEN conjunct2, rule_format, OF h2]
  from h1 a have "\<exists>g'. visit (IfNode (NumberNode 1) (BlockNode []) None) exampleBuilder = Inr g' \<and>
      (\<exists>g1 cv thenBB elseBB rest.
        visit (NumberNode 1) exampleBuilder = Inr g1 \<and> currentValue g1 = Some cv \<and>
        instructions g' =
          instructions g1 @ conditionCode ''ifcond'' cv g1 thenBB elseBB @ rest)"
    by blast
  moreover from h2 b have "\<exists>g'. visit (WhileNode (BinaryOpNode Less (NumberNode 1) (NumberNode 2)) (BlockNode []))
           exampleBuilder = Inr g' \<and>
      (\<exists>bb condBB g4 g5 cv loopBB afterBB rest.
        insertBlock exampleBuilder = Some bb \<and>
        instructions g4 = instructions exampleBuilder @ [Placed (Some bb) False (Br condBB)] \<and>
        visit (BinaryOpNode Less (NumberNode 1) (NumberNode 2)) g4 = Inr g5 \<and>
        currentValue g5 = Some cv \<and>
        instructions g' =
          instructions g5 @ conditionCode ''loopcond'' cv g5 loopBB afterBB @ rest)"
    by blast
  ultimately show ?thesis by (rule conjI)
qed

section \<open>The whole pipeline\<close>

text \<open>
  C1. The claim is that the source \<^verbatim>\<open>var x is 40 plus 2\<close>, newline, \<^verbatim>\<open>print x\<close> goes
  through the pipeline and prints \<^verbatim>\<open>42.000000\<close>. Lexer and parser deliver the program
  of the two statements, without diagnostics. The generator then visits the declaration
  at top level, where the builder has no insertion point: after the initial value,
  \<^verbatim>\<open>builder->GetInsertBlock()->getParent()\<close> goes through a null pointer. No IR is
  produced and nothing is executed.
\<close>

theorem top_level_declaration_crashes:
  "parse (20 + k) (lex (''var x is 40 plus 2'' @ [NL] @ ''print x'')) =
     Some (ProgramNode
            [VariableDeclarationNode ''x'' False
               (BinaryOpNode Add (NumberNode 40) (NumberNode 2)),
             PrintNode (IdentifierNode ''x'')], [], 8) \<and>
   generate
     (ProgramNode
        [VariableDeclarationNode ''x'' False (BinaryOpNode Add (NumberNode 40) (NumberNode 2)),
         PrintNode (IdentifierNode ''x'')])
     new_CodeGenerator = Inl NullDereference"
  using parse_scenario_1 [THEN parse_fuel_mono] generate_top_level by simp

end
